theory Spec2Isabelle
  imports Main "HOL-Library.Log_Nat" "HOL-Library.Word"
begin

section \<open>Floating-point values\<close>

text \<open>
  The item stores its angles as \<^verbatim>\<open>qreal\<close> (an IEEE-754 binary64 \<^verbatim>\<open>double\<close>), the render
  state as \<^verbatim>\<open>float\<close> (binary32). A value is a rational number, one of the two infinities,
  or a NaN. Every finite double is a rational, so a statement about all rationals covers
  all finite doubles. The two signed zeros are one value here: the comparisons of the
  source (\<^verbatim>\<open>==\<close>, \<^verbatim>\<open><\<close>, \<^verbatim>\<open>>\<close>) do not tell them apart.
\<close>

datatype fp = Finite rat | PosInf | NegInf | NaN

type_synonym qreal = fp
type_synonym float32 = fp

text \<open>\<^verbatim>\<open>qIsFinite\<close> of qnumeric.h: neither an infinity nor a NaN.\<close>

fun qIsFinite :: "fp \<Rightarrow> bool" where
  "qIsFinite (Finite x) = True"
| "qIsFinite PosInf = False"
| "qIsFinite NegInf = False"
| "qIsFinite NaN = False"

text \<open>The comparison operators of IEEE-754: every comparison with a NaN is false.\<close>

fun fp_eq :: "fp \<Rightarrow> fp \<Rightarrow> bool" where
  "fp_eq (Finite x) (Finite y) = (x = y)"
| "fp_eq PosInf PosInf = True"
| "fp_eq NegInf NegInf = True"
| "fp_eq a b = False"

fun fp_lt :: "fp \<Rightarrow> fp \<Rightarrow> bool" where
  "fp_lt NaN b = False"
| "fp_lt a NaN = False"
| "fp_lt (Finite x) (Finite y) = (x < y)"
| "fp_lt a NegInf = False"
| "fp_lt PosInf b = False"
| "fp_lt NegInf b = True"
| "fp_lt a PosInf = True"

definition fp_gt :: "fp \<Rightarrow> fp \<Rightarrow> bool" where
  "fp_gt a b = fp_lt b a"

subsection \<open>Rounding to the nearest representable value\<close>

text \<open>
  An arithmetic operation of the source returns the exact result rounded to the format,
  to the nearest value and on a tie to the one with an even significand (the default
  rounding mode). \<open>binade x\<close> is the exponent \<open>e\<close> with \<open>2^e \<le> x < 2^(e+1)\<close> for a positive
  \<open>x\<close>; the representable values of that binade are the multiples of \<open>2^(e - (p - 1))\<close> for
  a format of precision \<open>p\<close>, and below the smallest normal exponent \<open>emin\<close> the spacing stays
  that of \<open>emin\<close> (subnormal numbers). A result that rounds to \<open>2^(emax+1)\<close> or beyond is an
  infinity.
\<close>

definition round_even :: "rat \<Rightarrow> int" where
  "round_even r =
     (let f = \<lfloor>r\<rfloor>; d = r - of_int f in
      if d < 1 / 2 then f
      else if 1 / 2 < d then f + 1
      else if even f then f else f + 1)"

definition binade :: "rat \<Rightarrow> int" where
  "binade x =
     (let (n, d) = quotient_of x; k = bitlen n - bitlen d in
      if 2 powi k \<le> x then k else k - 1)"

definition fp_round :: "int \<Rightarrow> int \<Rightarrow> int \<Rightarrow> rat \<Rightarrow> fp" where
  "fp_round p emin emax x =
     (if x = 0 then Finite 0
      else
        let e = max (binade \<bar>x\<bar>) emin;
            q = 2 powi (e - (p - 1));
            y = of_int (round_even (x / q)) * q
        in if 2 powi (emax + 1) \<le> \<bar>y\<bar> then (if 0 < x then PosInf else NegInf)
           else Finite y)"

definition to_double :: "rat \<Rightarrow> fp" where
  "to_double = fp_round 53 (- 1022) 1023"

definition to_float :: "rat \<Rightarrow> fp" where
  "to_float = fp_round 24 (- 126) 127"

text \<open>The conversion \<^verbatim>\<open>double\<close> to \<^verbatim>\<open>float\<close> of an assignment such as
  \<^verbatim>\<open>m_state.azimuth = itm->azimuth()\<close>.\<close>

fun float_of_double :: "qreal \<Rightarrow> float32" where
  "float_of_double (Finite x) = to_float x"
| "float_of_double a = a"

subsection \<open>Arithmetic\<close>

text \<open>Addition, negation and multiplication, with the rounding of the format as a
  parameter; an operation on doubles rounds with \<open>to_double\<close>, one on floats with
  \<open>to_float\<close>.\<close>

fun fp_add :: "(rat \<Rightarrow> fp) \<Rightarrow> fp \<Rightarrow> fp \<Rightarrow> fp" where
  "fp_add rnd (Finite x) (Finite y) = rnd (x + y)"
| "fp_add rnd NaN b = NaN"
| "fp_add rnd a NaN = NaN"
| "fp_add rnd PosInf NegInf = NaN"
| "fp_add rnd NegInf PosInf = NaN"
| "fp_add rnd PosInf b = PosInf"
| "fp_add rnd NegInf b = NegInf"
| "fp_add rnd a PosInf = PosInf"
| "fp_add rnd a NegInf = NegInf"

fun fp_neg :: "fp \<Rightarrow> fp" where
  "fp_neg (Finite x) = Finite (- x)"
| "fp_neg PosInf = NegInf"
| "fp_neg NegInf = PosInf"
| "fp_neg NaN = NaN"

fun fp_abs :: "fp \<Rightarrow> fp" where
  "fp_abs (Finite x) = Finite \<bar>x\<bar>"
| "fp_abs PosInf = PosInf"
| "fp_abs NegInf = PosInf"
| "fp_abs NaN = NaN"

fun fp_sign :: "fp \<Rightarrow> int" where
  "fp_sign (Finite x) = (if x < 0 then - 1 else if x = 0 then 0 else 1)"
| "fp_sign PosInf = 1"
| "fp_sign NegInf = - 1"
| "fp_sign NaN = 0"

fun fp_mul :: "(rat \<Rightarrow> fp) \<Rightarrow> fp \<Rightarrow> fp \<Rightarrow> fp" where
  "fp_mul rnd (Finite x) (Finite y) = rnd (x * y)"
| "fp_mul rnd NaN b = NaN"
| "fp_mul rnd a NaN = NaN"
| "fp_mul rnd a b =
     (if fp_sign a * fp_sign b = 0 then NaN
      else if 0 < fp_sign a * fp_sign b then PosInf else NegInf)"

definition fp_le :: "fp \<Rightarrow> fp \<Rightarrow> bool" where
  "fp_le a b = (if fp_lt a b then True else fp_eq a b)"

definition d_add :: "qreal \<Rightarrow> qreal \<Rightarrow> qreal" where
  "d_add = fp_add to_double"

definition d_sub :: "qreal \<Rightarrow> qreal \<Rightarrow> qreal" where
  "d_sub a b = fp_add to_double a (fp_neg b)"

definition d_mul :: "qreal \<Rightarrow> qreal \<Rightarrow> qreal" where
  "d_mul = fp_mul to_double"

definition f_mul :: "float32 \<Rightarrow> float32 \<Rightarrow> float32" where
  "f_mul = fp_mul to_float"

text \<open>
  \<^verbatim>\<open>std::fmod(x, y)\<close>: the remainder \<open>x - n * y\<close> with \<open>n\<close> the quotient \<open>x / y\<close> truncated
  towards zero. The result is exact (it is always representable), has the sign of \<open>x\<close> and
  a magnitude below that of \<open>y\<close>. It is a NaN for an infinite \<open>x\<close>, for \<open>y = 0\<close> and for a NaN
  argument, and \<open>x\<close> itself for a finite \<open>x\<close> and an infinite \<open>y\<close>.
\<close>

definition trunc :: "rat \<Rightarrow> int" where
  "trunc r = (if 0 \<le> r then \<lfloor>r\<rfloor> else \<lceil>r\<rceil>)"

fun fmod :: "qreal \<Rightarrow> qreal \<Rightarrow> qreal" where
  "fmod (Finite x) (Finite y) =
     (if y = 0 then NaN else Finite (x - of_int (trunc (x / y)) * y))"
| "fmod NaN b = NaN"
| "fmod a NaN = NaN"
| "fmod PosInf b = NaN"
| "fmod NegInf b = NaN"
| "fmod (Finite x) b = Finite x"

text \<open>\<^verbatim>\<open>qMin\<close>, \<^verbatim>\<open>qMax\<close> and \<^verbatim>\<open>qBound\<close> of qglobal.h, on doubles.\<close>

definition qMin_d :: "qreal \<Rightarrow> qreal \<Rightarrow> qreal" where
  "qMin_d a b = (if fp_lt a b then a else b)"

definition qMax_d :: "qreal \<Rightarrow> qreal \<Rightarrow> qreal" where
  "qMax_d a b = (if fp_lt a b then b else a)"

definition qBound_d :: "qreal \<Rightarrow> qreal \<Rightarrow> qreal \<Rightarrow> qreal" where
  "qBound_d lo val hi = qMax_d lo (qMin_d hi val)"

section \<open>The data of the item\<close>

datatype CubeFace = PX | PY | PZ | MX | MY | MZ | InvalidFace

datatype RendererType = CubeRenderer | SphereRenderer

text \<open>
  A \<^verbatim>\<open>QByteArray\<close> is a handle on a shared, reference-counted block: \<open>ba_d\<close> is the address
  of the block (the d-pointer) and \<open>ba_data\<close> the bytes it holds. Copying a byte array
  copies the handle. \<^verbatim>\<open>isSharedWith\<close> compares the addresses, \<^verbatim>\<open>clear()\<close> goes back to the
  static empty block, which has address 0 here. A \<^verbatim>\<open>QMap\<close> is a handle of the same kind.
\<close>

type_synonym byte = "8 word"

record QByteArray =
  ba_d :: nat
  ba_data :: "byte list"

definition QByteArray_null :: QByteArray where
  "QByteArray_null = \<lparr>ba_d = 0, ba_data = []\<rparr>"

definition ba_isSharedWith :: "QByteArray \<Rightarrow> QByteArray \<Rightarrow> bool" where
  "ba_isSharedWith a b = (ba_d a = ba_d b)"

record CubeFaceMap =
  qm_d :: nat
  qm_entries :: "CubeFace \<rightharpoonup> QByteArray"

definition CubeFaceMap_null :: CubeFaceMap where
  "CubeFaceMap_null = \<lparr>qm_d = 0, qm_entries = Map.empty\<rparr>"

definition qm_isSharedWith :: "CubeFaceMap \<Rightarrow> CubeFaceMap \<Rightarrow> bool" where
  "qm_isSharedWith a b = (qm_d a = qm_d b)"

text \<open>
  A \<^verbatim>\<open>QVariant\<close> is the invalid variant, a string, a map from strings to variants, or a
  value of another type. \<^verbatim>\<open>canConvert<QString>()\<close> holds of a string and of many of the other
  types (a \<^verbatim>\<open>QUrl\<close>, a number, a boolean, a \<^verbatim>\<open>QByteArray\<close>, a date), and \<^verbatim>\<open>toString()\<close>
  and \<^verbatim>\<open>value<QString>()\<close> then give the converted value. A value of another type is
  \<open>VOther n c\<close>: the number \<open>n\<close> tells such values apart, and \<open>c\<close> is \<open>Some t\<close> when the type
  converts to a string and the value converts to \<open>t\<close> (the empty string when the conversion of
  this value fails), \<open>None\<close> when the type does not convert. The types that convert to a map
  without being one are not among them. A \<^verbatim>\<open>QVariantMap\<close> is the list of its entries in key
  order.
\<close>

datatype QVariant =
    VInvalid
  | VString string
  | VMap "(string \<times> QVariant) list"
  | VOther nat "string option"

type_synonym QVariantMap = "(string \<times> QVariant) list"

fun canConvert_QString :: "QVariant \<Rightarrow> bool" where
  "canConvert_QString (VString s) = True"
| "canConvert_QString (VOther n (Some t)) = True"
| "canConvert_QString v = False"

fun canConvert_QVariantMap :: "QVariant \<Rightarrow> bool" where
  "canConvert_QVariantMap (VMap m) = True"
| "canConvert_QVariantMap v = False"

fun toString :: "QVariant \<Rightarrow> string" where
  "toString (VString s) = s"
| "toString (VOther n (Some t)) = t"
| "toString v = []"

fun toMap :: "QVariant \<Rightarrow> QVariantMap" where
  "toMap (VMap m) = m"
| "toMap v = []"

text \<open>\<^verbatim>\<open>QVariantMap::value(k)\<close>: the variant stored under \<open>k\<close>, an invalid one when there
  is none.\<close>

definition vm_value :: "QVariantMap \<Rightarrow> string \<Rightarrow> QVariant" where
  "vm_value m k = (case map_of m k of None \<Rightarrow> VInvalid | Some v \<Rightarrow> v)"

text \<open>The fields of \<^verbatim>\<open>QmlPhotoSphere\<close> (photosphere.h), and the width and height it
  inherits from \<^verbatim>\<open>QQuickItem\<close>.\<close>

record QmlPhotoSphere =
  m_azimuth :: qreal
  m_elevation :: qreal
  m_fieldOfView :: qreal
  m_recreateRenderer :: bool
  m_nodeDirty :: bool
  m_maximumTextureSize :: int
  m_glMaxTexSize :: int
  m_image :: QByteArray
  m_imageUrl :: string
  m_cubeMap :: CubeFaceMap
  m_cubeMapUrls :: QVariantMap
  m_rendererType :: RendererType
  item_width :: qreal
  item_height :: qreal

text \<open>The item as its constructor and the member initialisers leave it.\<close>

definition QmlPhotoSphere_new :: QmlPhotoSphere where
  "QmlPhotoSphere_new =
     \<lparr>m_azimuth = Finite 0, m_elevation = Finite 0, m_fieldOfView = Finite 90,
      m_recreateRenderer = False, m_nodeDirty = False,
      m_maximumTextureSize = 65536, m_glMaxTexSize = - 1,
      m_image = QByteArray_null, m_imageUrl = [],
      m_cubeMap = CubeFaceMap_null, m_cubeMapUrls = [],
      m_rendererType = CubeRenderer,
      item_width = Finite 0, item_height = Finite 0\<rparr>"

section \<open>Effects\<close>

text \<open>
  A member function returns the item it leaves and the list of what it did to the outside,
  in order: the calls \<^verbatim>\<open>polish()\<close> and \<^verbatim>\<open>update()\<close> that schedule a repaint, the warnings,
  the queued invocations, and the signals it emitted. A handler connected to a signal runs
  inside the \<^verbatim>\<open>emit\<close>, so each emission records the item as it is at that point: this is what
  a handler reads through the getters.
\<close>

datatype signal =
    azimuthChanged qreal
  | elevationChanged qreal
  | fieldOfViewChanged qreal
  | sourceChanged
  | maximumTextureSizeChanged

datatype effect =
    Polish
  | Update
  | Emit signal QmlPhotoSphere
  | Warning
  | QueuedInvoke string

fun signals :: "effect list \<Rightarrow> signal list" where
  "signals [] = []"
| "signals (Emit sg s # es) = sg # signals es"
| "signals (e # es) = signals es"

definition updateSphere :: "QmlPhotoSphere \<Rightarrow> QmlPhotoSphere \<times> effect list" where
  "updateSphere s = (s\<lparr>m_nodeDirty := True\<rparr>, [Polish, Update])"

section \<open>The view parameters\<close>

definition azimuth :: "QmlPhotoSphere \<Rightarrow> qreal" where
  "azimuth s = m_azimuth s"

definition setAzimuth :: "qreal \<Rightarrow> QmlPhotoSphere \<Rightarrow> QmlPhotoSphere \<times> effect list" where
  "setAzimuth a s =
     (if \<not> qIsFinite a then (s, [])
      else
        let a1 = fmod a (Finite 360);
            a2 = (if fp_lt a1 (Finite 0) then d_add a1 (Finite 360) else a1)
        in if fp_eq a2 (m_azimuth s) then (s, [])
           else
             let (s1, es) = updateSphere (s\<lparr>m_azimuth := a2\<rparr>)
             in (s1, es @ [Emit (azimuthChanged a2) s1]))"

definition elevation :: "QmlPhotoSphere \<Rightarrow> qreal" where
  "elevation s = m_elevation s"

definition setElevation :: "qreal \<Rightarrow> QmlPhotoSphere \<Rightarrow> QmlPhotoSphere \<times> effect list" where
  "setElevation e s =
     (if fp_eq e (m_elevation s) then (s, [])
      else if \<not> qIsFinite e then (s, [])
      else
        let e1 = qBound_d (Finite (- 90)) e (Finite 90);
            (s1, es) = updateSphere (s\<lparr>m_elevation := e1\<rparr>)
        in (s1, es @ [Emit (elevationChanged e1) s1]))"

definition fieldOfView :: "QmlPhotoSphere \<Rightarrow> qreal" where
  "fieldOfView s = m_fieldOfView s"

definition setFieldOfView :: "qreal \<Rightarrow> QmlPhotoSphere \<Rightarrow> QmlPhotoSphere \<times> effect list" where
  "setFieldOfView fov s =
     (if fp_eq fov (m_fieldOfView s) then (s, [])
      else if fp_lt fov (Finite 3) then (s, [])
      else if fp_gt fov (Finite 150) then (s, [])
      else
        let (s1, es) = updateSphere (s\<lparr>m_fieldOfView := fov\<rparr>)
        in (s1, es @ [Emit (fieldOfViewChanged fov) s1]))"

section \<open>The texture size limit\<close>

definition maximumTextureSize :: "QmlPhotoSphere \<Rightarrow> int" where
  "maximumTextureSize s = min (m_maximumTextureSize s) (m_glMaxTexSize s)"

definition signalUpdatedMaxSize :: "QmlPhotoSphere \<Rightarrow> QmlPhotoSphere \<times> effect list" where
  "signalUpdatedMaxSize s = (s, [Emit maximumTextureSizeChanged s])"

definition setMaximumTextureSize :: "int \<Rightarrow> QmlPhotoSphere \<Rightarrow> QmlPhotoSphere \<times> effect list" where
  "setMaximumTextureSize maxTexSize s =
     (if maxTexSize = m_maximumTextureSize s then (s, [])
      else
        let oldSz = maximumTextureSize s;
            s1 = s\<lparr>m_maximumTextureSize := maxTexSize\<rparr>;
            newSz = maximumTextureSize s1
        in if oldSz = newSz then (s1, [])
           else
             let (s2, es) = updateSphere s1
             in (s2, es @ [Emit maximumTextureSizeChanged s2]))"

section \<open>Loading a source\<close>

text \<open>
  What the item takes from outside while it loads: whether \<^verbatim>\<open>QUrl(u).isValid()\<close> holds of a
  string, the bytes the network reply for a URL delivers (none when the reply is still
  unfinished after the event loop, which \<^verbatim>\<open>fetchUrl\<close> answers with an empty array), what
  \<^verbatim>\<open>QImage::loadFromData\<close> makes of the bytes (none when it returns false), the address
  of the block a \<^verbatim>\<open>QMap\<close> allocates at its first insertion, what \<^verbatim>\<open>QVariant::operator==\<close>
  answers for two variants that are not both strings (Qt 5 converts one of two variants of
  different types to the type of the other and compares then; it compares numbers after
  promotion), and whether the map that \<^verbatim>\<open>loadFromCubeMap\<close> is given shares its block with
  the stored one, as a copy does. With them comes the build:
  \<open>qt_assertions\<close> says that \<^verbatim>\<open>Q_ASSERT\<close> is active (\<^verbatim>\<open>QT_NO_DEBUG\<close> is not defined, a debug
  build); a release build defines \<^verbatim>\<open>QT_NO_DEBUG\<close>, and \<^verbatim>\<open>Q_ASSERT\<close> expands to nothing.
\<close>

record QImage =
  img_isNull :: bool
  img_width :: int
  img_height :: int

record Env =
  url_isValid :: "string \<Rightarrow> bool"
  net_reply :: "string \<Rightarrow> QByteArray option"
  img_loadFromData :: "QByteArray \<Rightarrow> QImage option"
  new_map_d :: nat
  variant_equal :: "QVariant \<Rightarrow> QVariant \<Rightarrow> bool"
  cubeMap_shared :: bool
  qt_assertions :: bool

definition fetchUrl :: "Env \<Rightarrow> string \<Rightarrow> QByteArray \<times> effect list" where
  "fetchUrl env u =
     (case net_reply env u of
        None \<Rightarrow> (QByteArray_null, [Warning])
      | Some data \<Rightarrow> (data, []))"

text \<open>The test both loaders make of the fetched bytes: they decode, and the image is
  neither null nor of width or height zero.\<close>

definition image_ok :: "Env \<Rightarrow> QByteArray \<Rightarrow> bool" where
  "image_ok env data =
     (case img_loadFromData env data of
        None \<Rightarrow> False
      | Some img \<Rightarrow>
          if img_isNull img then False
          else if img_width img = 0 then False
          else if img_height img = 0 then False
          else True)"

definition loadFromUrl ::
  "Env \<Rightarrow> string \<Rightarrow> QmlPhotoSphere \<Rightarrow> bool \<times> QmlPhotoSphere \<times> effect list" where
  "loadFromUrl env url s =
     (if url = [] then (False, s, [])
      else if url = m_imageUrl s then (True, s, [])
      else if \<not> url_isValid env url then (False, s, [Warning])
      else
        let (data, ws) = fetchUrl env url
        in if \<not> image_ok env data then (False, s, ws @ [Warning])
           else
             let (s1, es) = updateSphere (s\<lparr>m_imageUrl := url, m_image := data\<rparr>)
             in (True, s1, ws @ es @ [Emit sourceChanged s1]))"

text \<open>
  The comparison \<^verbatim>\<open>m_cubeMapUrls == cubeMap\<close> of two maps: \<^verbatim>\<open>QMap::operator==\<close> answers
  false for two sizes that differ and true for two maps that share their block, which then
  have the same entries; otherwise it goes through the entries of both in key order and
  looks for a pair with two keys or two values that differ. Two strings are equal variants
  when they are the same string.
\<close>

fun qv_equal :: "Env \<Rightarrow> QVariant \<Rightarrow> QVariant \<Rightarrow> bool" where
  "qv_equal env (VString a) (VString b) = (a = b)"
| "qv_equal env v w = variant_equal env v w"

definition vm_equal :: "Env \<Rightarrow> QVariantMap \<Rightarrow> QVariantMap \<Rightarrow> bool" where
  "vm_equal env a b =
     (if length a \<noteq> length b then False
      else if cubeMap_shared env \<and> a = b then True
      else list_all2 (\<lambda>x y. fst x = fst y \<and> qv_equal env (snd x) (snd y)) a b)"

definition requiredKeys :: "string list" where
  "requiredKeys =
     [''PositiveX'', ''PositiveY'', ''PositiveZ'', ''NegativeX'', ''NegativeY'', ''NegativeZ'']"

text \<open>\<^verbatim>\<open>nameToCubeFace.value(k)\<close>: a name that is not in the table gives the default
  value of the enum, which is \<open>PX\<close>.\<close>

definition nameToCubeFace :: "string \<Rightarrow> CubeFace" where
  "nameToCubeFace k =
     (if k = ''PositiveZ'' then PZ
      else if k = ''PositiveX'' then PX
      else if k = ''PositiveY'' then PY
      else if k = ''NegativeZ'' then MZ
      else if k = ''NegativeY'' then MY
      else if k = ''NegativeX'' then MX
      else PX)"

text \<open>
  The three loops of \<^verbatim>\<open>loadFromCubeMap\<close> over the required keys. The first one stops at a
  key that is missing or whose value does not convert to a string, the second one at a
  string that is no valid URL, the third one at a face whose bytes do not decode to a
  non-empty image. The branch of a missing key is
  \<^verbatim>\<open>qWarning() << ...; Q_ASSERT(false); return false;\<close>: where \<^verbatim>\<open>Q_ASSERT\<close> is active the
  failed assertion ends the process (\<^verbatim>\<open>qFatal\<close>), and the call does not return. A call that
  does not return has the result \<open>None\<close>.
\<close>

datatype key_check = KeysOk | KeyMissing | KeyNotConvertible

fun check_keys :: "QVariantMap \<Rightarrow> string list \<Rightarrow> key_check" where
  "check_keys cubeMap [] = KeysOk"
| "check_keys cubeMap (k # ks) =
     (if k \<notin> fst ` set cubeMap then KeyMissing
      else if \<not> canConvert_QString (vm_value cubeMap k) then KeyNotConvertible
      else check_keys cubeMap ks)"

fun urls_valid :: "Env \<Rightarrow> QVariantMap \<Rightarrow> string list \<Rightarrow> bool" where
  "urls_valid env cubeMap [] = True"
| "urls_valid env cubeMap (k # ks) =
     (if \<not> url_isValid env (toString (vm_value cubeMap k)) then False
      else urls_valid env cubeMap ks)"

definition qm_insert :: "Env \<Rightarrow> CubeFaceMap \<Rightarrow> CubeFace \<Rightarrow> QByteArray \<Rightarrow> CubeFaceMap" where
  "qm_insert env m face data =
     \<lparr>qm_d = (if qm_d m = 0 then new_map_d env else qm_d m),
      qm_entries = (qm_entries m)(face \<mapsto> data)\<rparr>"

fun fetch_faces ::
  "Env \<Rightarrow> QVariantMap \<Rightarrow> string list \<Rightarrow> CubeFaceMap \<Rightarrow> effect list
     \<Rightarrow> CubeFaceMap option \<times> effect list" where
  "fetch_faces env cubeMap [] cubeMapImages ws = (Some cubeMapImages, ws)"
| "fetch_faces env cubeMap (k # ks) cubeMapImages ws =
     (let (data, ws1) = fetchUrl env (toString (vm_value cubeMap k))
      in if \<not> image_ok env data then (None, ws @ ws1 @ [Warning])
         else fetch_faces env cubeMap ks
                (qm_insert env cubeMapImages (nameToCubeFace k) data) (ws @ ws1))"

definition loadFromCubeMap ::
  "Env \<Rightarrow> QVariantMap \<Rightarrow> QmlPhotoSphere \<Rightarrow> (bool \<times> QmlPhotoSphere \<times> effect list) option" where
  "loadFromCubeMap env cubeMap s =
     (if cubeMap = [] then Some (False, s, [])
      else if vm_equal env (m_cubeMapUrls s) cubeMap then Some (True, s, [])
      else
        case check_keys cubeMap requiredKeys of
          KeyMissing \<Rightarrow> if qt_assertions env then None else Some (False, s, [Warning])
        | KeyNotConvertible \<Rightarrow> Some (False, s, [Warning])
        | KeysOk \<Rightarrow>
            if \<not> urls_valid env cubeMap requiredKeys then Some (False, s, [])
            else
              case fetch_faces env cubeMap requiredKeys CubeFaceMap_null [] of
                (None, ws) \<Rightarrow> Some (False, s, ws)
              | (Some cubeMapImages, ws) \<Rightarrow>
                  let (s1, es) =
                        updateSphere (s\<lparr>m_cubeMap := cubeMapImages, m_cubeMapUrls := cubeMap\<rparr>)
                  in Some (True, s1, ws @ es @ [Emit sourceChanged s1]))"

definition source :: "QmlPhotoSphere \<Rightarrow> QVariant" where
  "source s =
     (if m_cubeMapUrls s \<noteq> [] then VMap (m_cubeMapUrls s) else VString (m_imageUrl s))"

text \<open>\<open>setSource\<close> does not return when its call of \<open>loadFromCubeMap\<close> does not.\<close>

definition setSource ::
  "Env \<Rightarrow> QVariant \<Rightarrow> QmlPhotoSphere \<Rightarrow> (QmlPhotoSphere \<times> effect list) option" where
  "setSource env src s =
     (if canConvert_QString src then
        let url = toString src;
            (ok, s1, es) = loadFromUrl env url s
        in if ok then
             Some (s1\<lparr>m_recreateRenderer :=
                        (if m_rendererType s1 \<noteq> SphereRenderer then True
                         else m_recreateRenderer s1),
                      m_rendererType := SphereRenderer,
                      m_cubeMap := CubeFaceMap_null,
                      m_cubeMapUrls := []\<rparr>, es)
           else Some (s1, es @ [Warning])
      else if canConvert_QVariantMap src then
        let cubeMap = toMap src
        in case loadFromCubeMap env cubeMap s of
             None \<Rightarrow> None
           | Some (ok, s1, es) \<Rightarrow>
               if ok then
                 Some (s1\<lparr>m_recreateRenderer :=
                            (if m_rendererType s1 \<noteq> CubeRenderer then True
                             else m_recreateRenderer s1),
                          m_rendererType := CubeRenderer,
                          m_image := QByteArray_null,
                          m_imageUrl := []\<rparr>, es)
               else Some (s1, es @ [Warning])
      else Some (s, []))"

section \<open>The render state and its exchange with the item\<close>

text \<open>
  \<^verbatim>\<open>PhotoSphereRenderState\<close>. Its fields \<^verbatim>\<open>azimuth\<close>, \<^verbatim>\<open>elevation\<close>, \<^verbatim>\<open>fov\<close>, \<^verbatim>\<open>source\<close> and so on
  carry the prefix \<open>rs_\<close> here, as the getters of the item have these names already.
\<close>

record PhotoSphereRenderState =
  rs_azimuth :: float32
  rs_elevation :: float32
  rs_fov :: float32
  rs_viewportWidth :: int
  rs_viewportHeight :: int
  rs_source :: QByteArray
  rs_sourceCube :: CubeFaceMap
  rs_maxTexSize :: int

definition INT_MAX :: int where
  "INT_MAX = 2147483647"

definition INT_MIN :: int where
  "INT_MIN = - 2147483648"

definition PhotoSphereRenderState_new :: PhotoSphereRenderState where
  "PhotoSphereRenderState_new =
     \<lparr>rs_azimuth = Finite 0, rs_elevation = Finite 0, rs_fov = Finite 90,
      rs_viewportWidth = 0, rs_viewportHeight = 0,
      rs_source = QByteArray_null, rs_sourceCube = CubeFaceMap_null,
      rs_maxTexSize = INT_MAX\<rparr>"

text \<open>\<^verbatim>\<open>PhotoSphereRenderState::operator==\<close>.\<close>

definition rs_equal :: "PhotoSphereRenderState \<Rightarrow> PhotoSphereRenderState \<Rightarrow> bool" where
  "rs_equal a o' =
     (fp_eq (rs_azimuth a) (rs_azimuth o')
      \<and> fp_eq (rs_elevation a) (rs_elevation o')
      \<and> fp_eq (rs_fov a) (rs_fov o')
      \<and> rs_viewportHeight a = rs_viewportHeight o'
      \<and> rs_viewportWidth a = rs_viewportWidth o'
      \<and> ba_isSharedWith (rs_source a) (rs_source o')
      \<and> qm_isSharedWith (rs_sourceCube a) (rs_sourceCube o')
      \<and> rs_maxTexSize a = rs_maxTexSize o')"

text \<open>
  The conversion of a \<^verbatim>\<open>qreal\<close> to \<^verbatim>\<open>int\<close>, as in \<^verbatim>\<open>m_state.viewportWidth = itm->width()\<close>:
  the value truncated towards zero. C++ leaves the conversion undefined for a NaN, an
  infinity and a value outside the range of \<^verbatim>\<open>int\<close>; the model gives \<open>INT_MIN\<close> there, which
  is what the conversion instruction of x86 returns.
\<close>

fun int_of_double :: "qreal \<Rightarrow> int" where
  "int_of_double (Finite x) =
     (if INT_MIN \<le> trunc x \<and> trunc x \<le> INT_MAX then trunc x else INT_MIN)"
| "int_of_double a = INT_MIN"

text \<open>
  \<^verbatim>\<open>PhotoSphereRendererBase\<close>: \<open>rb_shader\<close> says whether \<^verbatim>\<open>m_shader\<close> has been created, the
  test both renderers make in \<^verbatim>\<open>init\<close> before they call \<^verbatim>\<open>initBase\<close>. The argument \<open>gl\<close> of
  \<open>initBase\<close> is the value \<^verbatim>\<open>glGetIntegerv(GL_MAX_TEXTURE_SIZE)\<close> writes.
\<close>

record PhotoSphereRendererBase =
  rb_shader :: bool
  rb_state :: PhotoSphereRenderState
  rb_oldState :: PhotoSphereRenderState
  rb_glMaxTexSize :: int

definition PhotoSphereRendererBase_new :: PhotoSphereRendererBase where
  "PhotoSphereRendererBase_new =
     \<lparr>rb_shader = False, rb_state = PhotoSphereRenderState_new,
      rb_oldState = PhotoSphereRenderState_new, rb_glMaxTexSize = INT_MAX\<rparr>"

definition initBase :: "int \<Rightarrow> PhotoSphereRendererBase \<Rightarrow> PhotoSphereRendererBase" where
  "initBase gl r = r\<lparr>rb_glMaxTexSize := gl, rb_shader := True\<rparr>"

definition init :: "int \<Rightarrow> PhotoSphereRendererBase \<Rightarrow> PhotoSphereRendererBase" where
  "init gl r = (if \<not> rb_shader r then initBase gl r else r)"

definition updateState ::
  "PhotoSphereRendererBase \<Rightarrow> QmlPhotoSphere
     \<Rightarrow> PhotoSphereRendererBase \<times> QmlPhotoSphere \<times> effect list" where
  "updateState r itm =
     (let r1 = r\<lparr>rb_oldState := rb_state r\<rparr>;
          st = \<lparr>rs_azimuth = float_of_double (azimuth itm),
                rs_elevation = float_of_double (elevation itm),
                rs_fov = float_of_double (fieldOfView itm),
                rs_viewportWidth = int_of_double (item_width itm),
                rs_viewportHeight = int_of_double (item_height itm),
                rs_source = m_image itm,
                rs_sourceCube = m_cubeMap itm,
                rs_maxTexSize = min (rb_glMaxTexSize r1) (m_maximumTextureSize itm)\<rparr>;
          r2 = r1\<lparr>rb_state := st\<rparr>
      in if m_glMaxTexSize itm \<noteq> rb_glMaxTexSize r2 then
           let oldValue = min (m_glMaxTexSize itm) (m_maximumTextureSize itm);
               itm1 = itm\<lparr>m_glMaxTexSize := rb_glMaxTexSize r2\<rparr>;
               newValue = min (m_glMaxTexSize itm1) (m_maximumTextureSize itm1)
           in if oldValue \<noteq> newValue
              then (r2, itm1, [QueuedInvoke ''signalUpdatedMaxSize''])
              else (r2, itm1, [])
         else (r2, itm, []))"

text \<open>\<^verbatim>\<open>PhotoSphereRendererBase::synchronize\<close>: true when the rest of the pass is to run.\<close>

definition synchronize ::
  "int \<Rightarrow> PhotoSphereRendererBase \<Rightarrow> QmlPhotoSphere
     \<Rightarrow> bool \<times> PhotoSphereRendererBase \<times> QmlPhotoSphere \<times> effect list" where
  "synchronize gl r itm =
     (let (r1, itm1, es) = updateState (init gl r) itm
      in (\<not> rs_equal (rb_state r1) (rb_oldState r1), r1, itm1, es))"

section \<open>Calls of the public setters\<close>

text \<open>A call of one of the five property setters; a call of \<open>setSource\<close> comes with the
  outside it meets. A sequence of calls ends where a call does not return.\<close>

datatype call =
    SetAzimuth qreal
  | SetElevation qreal
  | SetFieldOfView qreal
  | SetSource Env QVariant
  | SetMaximumTextureSize int

fun do_call :: "call \<Rightarrow> QmlPhotoSphere \<Rightarrow> (QmlPhotoSphere \<times> effect list) option" where
  "do_call (SetAzimuth a) s = Some (setAzimuth a s)"
| "do_call (SetElevation e) s = Some (setElevation e s)"
| "do_call (SetFieldOfView f) s = Some (setFieldOfView f s)"
| "do_call (SetSource env src) s = setSource env src s"
| "do_call (SetMaximumTextureSize n) s = Some (setMaximumTextureSize n s)"

fun do_calls :: "call list \<Rightarrow> QmlPhotoSphere \<Rightarrow> QmlPhotoSphere option" where
  "do_calls [] s = Some s"
| "do_calls (c # cs) s =
     (case do_call c s of None \<Rightarrow> None | Some (s1, es) \<Rightarrow> do_calls cs s1)"

section \<open>What the statements about the source speak of\<close>

text \<open>
  The bytes fetched for the face \<open>k\<close> of a cube map, and what makes a face acceptable: its
  key is in the map, its value converts to a string, the string is a valid URL, and the
  bytes fetched from it decode to a non-empty image.
\<close>

definition fetched :: "Env \<Rightarrow> QVariantMap \<Rightarrow> string \<Rightarrow> QByteArray" where
  "fetched env cubeMap k = fst (fetchUrl env (toString (vm_value cubeMap k)))"

definition face_ok :: "Env \<Rightarrow> QVariantMap \<Rightarrow> string \<Rightarrow> bool" where
  "face_ok env cubeMap k =
     (k \<in> fst ` set cubeMap \<and> canConvert_QString (vm_value cubeMap k)
      \<and> url_isValid env (toString (vm_value cubeMap k))
      \<and> image_ok env (fetched env cubeMap k))"

text \<open>The byte mapping of a cube map: the six faces, each with the bytes fetched for its
  key, in a block of their own.\<close>

definition cube_faces :: "Env \<Rightarrow> QVariantMap \<Rightarrow> CubeFaceMap" where
  "cube_faces env cubeMap =
     \<lparr>qm_d = new_map_d env,
      qm_entries =
        [PX \<mapsto> fetched env cubeMap ''PositiveX'', PY \<mapsto> fetched env cubeMap ''PositiveY'',
         PZ \<mapsto> fetched env cubeMap ''PositiveZ'', MX \<mapsto> fetched env cubeMap ''NegativeX'',
         MY \<mapsto> fetched env cubeMap ''NegativeY'', MZ \<mapsto> fetched env cubeMap ''NegativeZ'']\<rparr>"

text \<open>A source variant is populated when its locator or its bytes are there; the two
  variants are exclusive when at most one of them is populated.\<close>

definition image_populated :: "QmlPhotoSphere \<Rightarrow> bool" where
  "image_populated s = (m_imageUrl s \<noteq> [] \<or> ba_data (m_image s) \<noteq> [])"

definition cube_populated :: "QmlPhotoSphere \<Rightarrow> bool" where
  "cube_populated s = (m_cubeMapUrls s \<noteq> [] \<or> qm_entries (m_cubeMap s) \<noteq> Map.empty)"

definition exclusive :: "QmlPhotoSphere \<Rightarrow> bool" where
  "exclusive s = (\<not> (image_populated s \<and> cube_populated s))"

text \<open>The signals of a list of effects, each with the item as it was at the emission.\<close>

fun emissions :: "effect list \<Rightarrow> (signal \<times> QmlPhotoSphere) list" where
  "emissions [] = []"
| "emissions (Emit sg s # es) = (sg, s) # emissions es"
| "emissions (e # es) = emissions es"

section \<open>An example outside and example sources\<close>

text \<open>
  An outside in which every string is a valid URL, the URL \<open>empty.jpg\<close> delivers no
  bytes and every other URL three bytes that decode to an image of 2 by 1 pixels, two
  variants are equal when they are the same and no map given is a copy of the stored one,
  in a release build and in a debug build; a
  map with the six faces, one that lacks the face \<open>NegativeZ\<close>, and one whose six values are
  no strings but values of another type that convert to a string, as six \<^verbatim>\<open>QUrl\<close> do; the
  item after a first \<open>setSource\<close> with the six faces.
\<close>

definition jpeg :: QByteArray where
  "jpeg = \<lparr>ba_d = 1, ba_data = [255, 216, 255]\<rparr>"

definition env_ex :: Env where
  "env_ex =
     \<lparr>url_isValid = (\<lambda>u. True),
      net_reply = (\<lambda>u. if u = ''empty.jpg'' then Some QByteArray_null else Some jpeg),
      img_loadFromData =
        (\<lambda>d. if ba_data d = [] then None
             else Some \<lparr>img_isNull = False, img_width = 2, img_height = 1\<rparr>),
      new_map_d = 2,
      variant_equal = (\<lambda>v w. v = w),
      cubeMap_shared = False,
      qt_assertions = False\<rparr>"

definition env_debug :: Env where
  "env_debug = env_ex\<lparr>qt_assertions := True\<rparr>"

definition five_faces :: QVariantMap where
  "five_faces =
     [(''NegativeX'', VString ''nx.jpg''), (''NegativeY'', VString ''ny.jpg''),
      (''PositiveX'', VString ''px.jpg''), (''PositiveY'', VString ''py.jpg''),
      (''PositiveZ'', VString ''pz.jpg'')]"

definition six_faces :: QVariantMap where
  "six_faces =
     [(''NegativeX'', VString ''nx.jpg''), (''NegativeY'', VString ''ny.jpg''),
      (''NegativeZ'', VString ''nz.jpg''),
      (''PositiveX'', VString ''px.jpg''), (''PositiveY'', VString ''py.jpg''),
      (''PositiveZ'', VString ''pz.jpg'')]"

definition six_urls :: QVariantMap where
  "six_urls =
     [(''NegativeX'', VOther 1 (Some ''nx.jpg'')), (''NegativeY'', VOther 2 (Some ''ny.jpg'')),
      (''NegativeZ'', VOther 3 (Some ''nz.jpg'')),
      (''PositiveX'', VOther 4 (Some ''px.jpg'')), (''PositiveY'', VOther 5 (Some ''py.jpg'')),
      (''PositiveZ'', VOther 6 (Some ''pz.jpg''))]"

definition item_cube :: QmlPhotoSphere where
  "item_cube =
     QmlPhotoSphere_new\<lparr>m_cubeMap := cube_faces env_ex six_faces, m_cubeMapUrls := six_faces,
       m_nodeDirty := True\<rparr>"

text \<open>
  The render state a new renderer takes at its first \<open>synchronize\<close>, on a device whose
  largest texture has 4096 pixels, from the item after \<open>setFieldOfView NaN\<close> and from the
  example item with the six faces; and the latter with its six byte arrays in a map built
  apart, in another block.
\<close>

definition state_nan :: PhotoSphereRenderState where
  "state_nan =
     rb_state (fst (snd (synchronize 4096 PhotoSphereRendererBase_new
       (fst (setFieldOfView NaN QmlPhotoSphere_new)))))"

definition state_cube :: PhotoSphereRenderState where
  "state_cube =
     rb_state (fst (snd (synchronize 4096 PhotoSphereRendererBase_new item_cube)))"

definition state_cube_rebuilt :: PhotoSphereRenderState where
  "state_cube_rebuilt = state_cube\<lparr>rs_sourceCube := (rs_sourceCube state_cube)\<lparr>qm_d := 7\<rparr>\<rparr>"

section \<open>The meshes\<close>

type_synonym QVector3D = "float32 \<times> float32 \<times> float32"
type_synonym QVector2D = "float32 \<times> float32"

text \<open>The constructors take \<^verbatim>\<open>float\<close> arguments: a \<^verbatim>\<open>double\<close> argument is converted.\<close>

definition vec3 :: "qreal \<Rightarrow> qreal \<Rightarrow> qreal \<Rightarrow> QVector3D" where
  "vec3 x y z = (float_of_double x, float_of_double y, float_of_double z)"

definition vec2 :: "qreal \<Rightarrow> qreal \<Rightarrow> QVector2D" where
  "vec2 x y = (float_of_double x, float_of_double y)"

text \<open>\<^verbatim>\<open>qFuzzyIsNull(float f)\<close> of qglobal.h: \<^verbatim>\<open>qAbs(f) <= 0.00001f\<close>.\<close>

definition qFuzzyIsNull :: "float32 \<Rightarrow> bool" where
  "qFuzzyIsNull f = fp_le (fp_abs f) (to_float (1 / 100000))"

definition nullify :: "float32 \<Rightarrow> float32" where
  "nullify c = (if qFuzzyIsNull c then Finite 0 else c)"

definition nullify3 :: "QVector3D \<Rightarrow> QVector3D" where
  "nullify3 v = (case v of (x, y, z) \<Rightarrow> (nullify x, nullify y, nullify z))"

subsection \<open>The sphere\<close>

text \<open>
  \<^verbatim>\<open>cos\<close> and \<^verbatim>\<open>sin\<close> come from the C library and are parameters. The constants are the
  doubles of the source: \<^verbatim>\<open>M_PI\<close> is \<open>884279719003555 / 2^48\<close> and \<^verbatim>\<open>M_PI_2\<close> is half of it.
  Every operation rounds on its own.
\<close>

record Libm =
  libm_cos :: "qreal \<Rightarrow> qreal"
  libm_sin :: "qreal \<Rightarrow> qreal"

record Sphere3D =
  m_sphereVertices :: "QVector3D list"
  m_texCoords :: "QVector2D list"

definition M_PI :: qreal where
  "M_PI = Finite (884279719003555 / 281474976710656)"

definition M_PI_2 :: qreal where
  "M_PI_2 = Finite (884279719003555 / 562949953421312)"

definition step :: qreal where
  "step = Finite (1 / 64)"

definition pi2 :: qreal where
  "pi2 = d_mul (Finite 2) M_PI"

definition di :: qreal where
  "di = step"

definition dj :: qreal where
  "dj = d_mul step (Finite 2)"

definition du :: qreal where
  "du = d_mul (d_mul di (Finite 2)) M_PI"

definition dv :: qreal where
  "dv = d_mul dj M_PI"

text \<open>The body of the two loops: the four corners of the cell at \<open>(i, j)\<close>, their texture
  coordinates, and the six vertices of its two triangles appended to the mesh.\<close>

definition sphere_cell :: "Libm \<Rightarrow> qreal \<Rightarrow> qreal \<Rightarrow> Sphere3D \<Rightarrow> Sphere3D" where
  "sphere_cell lm i j sp =
     (let cos = libm_cos lm; sin = libm_sin lm;
          u = d_add (d_mul i pi2) M_PI_2;
          v = d_sub M_PI_2 (d_mul j M_PI);
          bl = vec3 (d_mul (cos u) (cos (d_sub v dv))) (sin (d_sub v dv))
                 (d_mul (fp_neg (sin u)) (cos (d_sub v dv)));
          br = vec3 (d_mul (cos (d_add u du)) (cos (d_sub v dv))) (sin (d_sub v dv))
                 (d_mul (fp_neg (sin (d_add u du))) (cos (d_sub v dv)));
          tr = vec3 (d_mul (cos (d_add u du)) (cos v)) (sin v)
                 (d_mul (fp_neg (sin (d_add u du))) (cos v));
          tl = vec3 (d_mul (cos u) (cos v)) (sin v) (d_mul (fp_neg (sin u)) (cos v));
          bl = nullify3 bl; br = nullify3 br; tr = nullify3 tr; tl = nullify3 tl;
          texBl = vec2 (d_sub (Finite 1) i) (d_add j dj);
          texBr = vec2 (d_sub (d_sub (Finite 1) i) di) (d_add j dj);
          texTr = vec2 (d_sub (d_sub (Finite 1) i) di) j;
          texTl = vec2 (d_sub (Finite 1) i) j
      in sp\<lparr>m_sphereVertices := m_sphereVertices sp @ [bl, tl, tr, bl, tr, br],
            m_texCoords := m_texCoords sp @ [texBl, texTl, texTr, texBl, texTr, texBr]\<rparr>)"

text \<open>
  The loops run on doubles: \<^verbatim>\<open>for (double j = 0; j < 1.0; j += dj)\<close> inside
  \<^verbatim>\<open>for (double i = 0; i < 1.0; i += di)\<close>. A loop on a double need not end (from a start far
  below zero the addition of the step rounds back to the start), so the loops are partial
  functions, and that they return from the start 0 is a theorem.
\<close>

partial_function (option) sphere_loop_j ::
  "Libm \<Rightarrow> qreal \<Rightarrow> qreal \<Rightarrow> Sphere3D \<Rightarrow> Sphere3D option" where
  "sphere_loop_j lm i j sp =
     (if fp_lt j (Finite 1) then sphere_loop_j lm i (d_add j dj) (sphere_cell lm i j sp)
      else Some sp)"

partial_function (option) sphere_loop_i ::
  "Libm \<Rightarrow> qreal \<Rightarrow> Sphere3D \<Rightarrow> Sphere3D option" where
  "sphere_loop_i lm i sp =
     (if fp_lt i (Finite 1) then
        Option.bind (sphere_loop_j lm i (Finite 0) sp) (sphere_loop_i lm (d_add i di))
      else Some sp)"

definition generateSphere :: "Libm \<Rightarrow> Sphere3D option" where
  "generateSphere lm = sphere_loop_i lm (Finite 0) \<lparr>m_sphereVertices = [], m_texCoords = []\<rparr>"

subsection \<open>The cube\<close>

text \<open>\<^verbatim>\<open>Cube3D\<close>; its array \<^verbatim>\<open>m_texCoords\<close> is \<open>m_cubeTexCoords\<close> here, the sphere has a field
  of that name. The two arrays of 24 elements start with default-constructed vectors.\<close>

record Cube3D =
  m_scale :: float32
  m_cubeVertices :: "QVector3D list"
  m_indices :: "nat list"
  m_texCoordsFace :: "QVector2D list"
  m_vertices :: "QVector3D list"
  m_cubeTexCoords :: "QVector2D list"

definition cube_corner :: "float32 \<Rightarrow> rat \<Rightarrow> rat \<Rightarrow> rat \<Rightarrow> QVector3D" where
  "cube_corner sc x y z = (f_mul (Finite x) sc, f_mul (Finite y) sc, f_mul (Finite z) sc)"

definition cube_fill :: "nat \<Rightarrow> Cube3D \<Rightarrow> Cube3D" where
  "cube_fill i c =
     c\<lparr>m_vertices := (m_vertices c)[i := m_cubeVertices c ! (m_indices c ! i)],
       m_cubeTexCoords := (m_cubeTexCoords c)[i := m_texCoordsFace c ! (i mod 4)]\<rparr>"

text \<open>The member initialisers of the constructor, and the constructor with its loop
  \<^verbatim>\<open>for (int i = 0; i < int(m_indices.size()); ++i)\<close>.\<close>

definition Cube3D_init :: "float32 \<Rightarrow> Cube3D" where
  "Cube3D_init scale =
     \<lparr>m_scale = scale,
      m_cubeVertices =
        [cube_corner scale (- 1) 1 1,
         cube_corner scale (- 1) (- 1) 1,
         cube_corner scale 1 (- 1) 1,
         cube_corner scale 1 1 1,
         cube_corner scale (- 1) 1 (- 1),
         cube_corner scale (- 1) (- 1) (- 1),
         cube_corner scale 1 (- 1) (- 1),
         cube_corner scale 1 1 (- 1)],
      m_indices =
        [3, 2, 6, 7,
         4, 0, 3, 7,
         0, 1, 2, 3,
         4, 5, 1, 0,
         1, 5, 6, 2,
         7, 6, 5, 4],
      m_texCoordsFace =
        [(Finite 1, Finite 0), (Finite 1, Finite 1),
         (Finite 0, Finite 1), (Finite 0, Finite 0)],
      m_vertices = replicate 24 (Finite 0, Finite 0, Finite 0),
      m_cubeTexCoords = replicate 24 (Finite 0, Finite 0)\<rparr>"

definition Cube3D_new :: "float32 \<Rightarrow> Cube3D" where
  "Cube3D_new scale =
     (let c = Cube3D_init scale in fold cube_fill [0 ..< length (m_indices c)] c)"

section \<open>Properties of the rounding\<close>

text \<open>
  \<open>binade x\<close> is the exponent of the power of two at or below a positive \<open>x\<close>, and the only
  one; a value \<open>m * 2^k\<close> whose significand \<open>m\<close> has at most \<open>p\<close> bits, whose exponent is
  not below that of the subnormal numbers and which is in range is representable: rounding
  returns it unchanged.
\<close>

lemma int_bitlen_powi:
  fixes n :: int
  assumes "0 < n"
  shows "(2::rat) powi (bitlen n - 1) \<le> of_int n" and "of_int n < (2::rat) powi bitlen n"
proof -
  from bitlen_bounds[OF assms] have lo: "2 ^ nat (bitlen n - 1) \<le> n" and hi: "n < 2 ^ nat (bitlen n)"
    by auto
  have pos: "0 < bitlen n" using assms by (simp add: bitlen_alt_def)
  have "(of_int (2 ^ nat (bitlen n - 1)) :: rat) \<le> of_int n" using lo by (simp only: of_int_le_iff)
  moreover have "(2::rat) powi (bitlen n - 1) = 2 ^ nat (bitlen n - 1)"
    using pos by (simp add: power_int_def)
  ultimately show "(2::rat) powi (bitlen n - 1) \<le> of_int n" by simp
  have "(of_int n :: rat) < of_int (2 ^ nat (bitlen n))" using hi by (simp only: of_int_less_iff)
  moreover have "(2::rat) powi (bitlen n) = 2 ^ nat (bitlen n)"
    using pos by (simp add: power_int_def)
  ultimately show "of_int n < (2::rat) powi bitlen n" by simp
qed

lemma binade_bounds:
  assumes "0 < x"
  shows "2 powi binade x \<le> x \<and> x < 2 powi (binade x + 1)"
proof -
  obtain n d where q: "quotient_of x = (n, d)" by (cases "quotient_of x")
  have d: "0 < d" using q by (rule quotient_of_denom_pos)
  have x: "x = of_int n / of_int d" using q by (rule quotient_of_div)
  have n: "0 < n" using assms d x by (simp add: zero_less_divide_iff)
  define k where "k = bitlen n - bitlen d"
  have dpos: "(0::rat) < of_int d" using d by simp
  have "x < 2 powi bitlen n / 2 powi (bitlen d - 1)"
    unfolding x using int_bitlen_powi[OF n] int_bitlen_powi[OF d] dpos
    by (intro frac_less) (auto simp: n less_imp_le)
  also have "\<dots> = 2 powi (k + 1)"
    by (simp add: k_def power_int_diff[symmetric] algebra_simps)
  finally have hi: "x < 2 powi (k + 1)" .
  have "2 powi (bitlen n - 1) / 2 powi bitlen d < x"
    unfolding x using int_bitlen_powi[OF n] int_bitlen_powi[OF d] dpos
    by (intro frac_less2) (auto simp: n)
  moreover have "(2::rat) powi (bitlen n - 1) / 2 powi bitlen d = 2 powi (k - 1)"
    by (simp add: k_def power_int_diff[symmetric] algebra_simps)
  ultimately have lo: "2 powi (k - 1) < x" by simp
  have b: "binade x = (if 2 powi k \<le> x then k else k - 1)"
    by (simp add: binade_def q k_def)
  show ?thesis
  proof (cases "2 powi k \<le> x")
    case True
    with b hi show ?thesis by simp
  next
    case False
    with b lo show ?thesis by (simp add: less_imp_le)
  qed
qed

lemma binade_eqI:
  assumes "2 powi e \<le> x" "x < 2 powi (e + 1)"
  shows "binade x = e"
proof -
  have "0 < (2::rat) powi e" by simp
  with assms have x: "0 < x" by linarith
  from binade_bounds[OF x] have b: "2 powi binade x \<le> x" "x < 2 powi (binade x + 1)" by auto
  have "(2::rat) powi binade x < 2 powi (e + 1)" using b(1) assms(2) by linarith
  then have 1: "binade x < e + 1"
    using power_int_increasing[of "e + 1" "binade x" "2::rat"] by (cases "binade x < e + 1") auto
  have "(2::rat) powi e < 2 powi (binade x + 1)" using b(2) assms(1) by linarith
  then have 2: "e < binade x + 1"
    using power_int_increasing[of "binade x + 1" e "2::rat"] by (cases "e < binade x + 1") auto
  from 1 2 show ?thesis by simp
qed


lemma round_even_of_int: "round_even (of_int m) = m"
  by (simp add: round_even_def)

lemma fp_round_exact:
  assumes x: "x = of_int m * 2 powi k"
    and m: "\<bar>m\<bar> < 2 ^ nat p"
    and p: "0 < p"
    and k: "emin - (p - 1) \<le> k"
    and r: "\<bar>x\<bar> < 2 powi (emax + 1)"
  shows "fp_round p emin emax x = Finite x"
proof (cases "x = 0")
  case True
  then show ?thesis by (simp add: fp_round_def)
next
  case False
  define e where "e = max (binade \<bar>x\<bar>) emin"
  define q :: rat where "q = 2 powi (e - (p - 1))"
  have ax: "0 < \<bar>x\<bar>" using False by simp
  have "\<bar>x\<bar> = of_int \<bar>m\<bar> * 2 powi k" by (simp add: x abs_mult)
  also have "\<dots> < of_int (2 ^ nat p) * 2 powi k"
    using m by (intro mult_strict_right_mono) (simp_all only: of_int_less_iff zero_less_power_int zero_less_numeral)
  also have "\<dots> = 2 powi (p + k)"
  proof -
    have "(of_int (2 ^ nat p) :: rat) = 2 powi p" using p by (simp add: power_int_def)
    then show ?thesis by (simp add: power_int_add)
  qed
  finally have "\<bar>x\<bar> < 2 powi (p + k)" .
  with binade_bounds[OF ax] have "(2::rat) powi binade \<bar>x\<bar> < 2 powi (p + k)" by linarith
  then have "binade \<bar>x\<bar> < p + k"
    using power_int_increasing[of "p + k" "binade \<bar>x\<bar>" "2::rat"]
    by (cases "binade \<bar>x\<bar> < p + k") auto
  with k have ek: "e - (p - 1) \<le> k" by (simp add: e_def)
  define j where "j = nat (k - (e - (p - 1)))"
  have "(2::rat) powi k = 2 powi (e - (p - 1)) * 2 powi (int j)"
    using ek by (simp add: j_def power_int_add[symmetric])
  then have kq: "(2::rat) powi k = q * 2 ^ j" by (simp add: q_def)
  have q0: "q \<noteq> 0" by (simp add: q_def)
  have "x / q = of_int (m * 2 ^ j)" using q0 by (simp add: x kq)
  then have "of_int (round_even (x / q)) * q = x"
    using q0 by (simp only: round_even_of_int) (simp add: x kq)
  then show ?thesis
    using False r by (simp add: fp_round_def Let_def e_def[symmetric] q_def[symmetric])
qed

text \<open>
  The rounded value is the nearest one: it differs from the exact value by at most half the
  spacing of the representable values of its binade.
\<close>

lemma round_even_nearest: "\<bar>of_int (round_even r) - r\<bar> \<le> 1 / 2"
proof -
  define d where "d = r - of_int \<lfloor>r\<rfloor>"
  have d: "0 \<le> d" "d < 1"
    using floor_correct[of r] by (simp_all add: d_def)
  have r: "r = of_int \<lfloor>r\<rfloor> + d" by (simp add: d_def)
  consider "d < 1 / 2" | "1 / 2 < d" | "d = 1 / 2" by linarith
  then show ?thesis
  proof cases
    case 1
    then have "round_even r = \<lfloor>r\<rfloor>" by (simp add: round_even_def Let_def d_def)
    then have "of_int (round_even r) - r = - d" by (simp add: d_def)
    with 1 d show ?thesis by (simp add: abs_if)
  next
    case 2
    then have "round_even r = \<lfloor>r\<rfloor> + 1" by (simp add: round_even_def Let_def d_def)
    then have "of_int (round_even r) - r = 1 - d" by (simp add: d_def)
    with 2 d show ?thesis by (simp add: abs_if)
  next
    case 3
    then have "round_even r = \<lfloor>r\<rfloor> \<or> round_even r = \<lfloor>r\<rfloor> + 1"
      by (simp add: round_even_def Let_def d_def)
    then have "of_int (round_even r) - r = - d \<or> of_int (round_even r) - r = 1 - d"
      by (auto simp: d_def)
    with 3 show ?thesis by (auto simp: abs_if)
  qed
qed

lemma fp_round_nearest:
  assumes "fp_round p emin emax x = Finite y"
  shows "\<bar>y - x\<bar> \<le> 2 powi (max (binade \<bar>x\<bar>) emin - (p - 1)) / 2"
proof (cases "x = 0")
  case True
  with assms show ?thesis by (simp add: fp_round_def)
next
  case False
  define q :: rat where "q = 2 powi (max (binade \<bar>x\<bar>) emin - (p - 1))"
  have q: "0 < q" by (simp add: q_def)
  from assms False have y: "y = of_int (round_even (x / q)) * q"
    by (auto simp: fp_round_def Let_def q_def split: if_splits)
  have "y - x = (of_int (round_even (x / q)) - x / q) * q"
    using q by (simp add: y left_diff_distrib)
  then have "\<bar>y - x\<bar> = \<bar>of_int (round_even (x / q)) - x / q\<bar> * q"
    using q by (simp add: abs_mult)
  also have "\<dots> \<le> 1 / 2 * q"
    using q round_even_nearest[of "x / q"] by (intro mult_right_mono) simp_all
  finally show ?thesis by (simp add: q_def)
qed

text \<open>An inexact case: the double nearest to one tenth is \<open>3602879701896397 / 2^55\<close>.\<close>

lemma to_double_tenth: "to_double (1 / 10) = Finite (3602879701896397 / 36028797018963968)"
proof -
  have b: "binade (1 / 10) = - 4"
    by (rule binade_eqI) (simp_all add: power_int_minus)
  have q: "(2::rat) powi (- 56) = 1 / 72057594037927936"
    by (simp add: power_int_minus inverse_eq_divide)
  have f: "\<lfloor>36028797018963968 / 5 :: rat\<rfloor> = 7205759403792793"
    by (rule floor_unique) simp_all
  have r: "round_even (36028797018963968 / 5) = 7205759403792794"
    by (simp add: round_even_def Let_def f)
  show ?thesis
    by (simp add: to_double_def fp_round_def b q r Let_def)
qed

section \<open>The setters of the view parameters\<close>

subsection \<open>Field of view\<close>

text \<open>
  For every argument but a NaN the setter does what its sibling setters do: an infinite
  argument, one below 3, one above 150 and one equal to the stored value leave the item as
  it is and emit nothing; any other argument is stored, with a repaint and one
  \<open>fieldOfViewChanged\<close>.
\<close>

lemma setFieldOfView_not_NaN:
  assumes "fov \<noteq> NaN"
  shows "setFieldOfView fov s =
     (if fp_eq fov (m_fieldOfView s) \<or> fp_lt fov (Finite 3) \<or> fp_gt fov (Finite 150)
         \<or> fov = PosInf \<or> fov = NegInf
      then (s, [])
      else (s\<lparr>m_fieldOfView := fov, m_nodeDirty := True\<rparr>,
            [Polish, Update,
             Emit (fieldOfViewChanged fov) (s\<lparr>m_fieldOfView := fov, m_nodeDirty := True\<rparr>)]))"
  using assms by (cases fov) (auto simp: setFieldOfView_def fp_gt_def updateSphere_def)

text \<open>
  C1. The claim: \<open>setFieldOfView f\<close> is a no-op for a non-finite \<open>f\<close> (a NaN or an infinity),
  so that the stored field of view stays finite. The setter has no \<open>qIsFinite\<close> test, and
  the three comparisons of its guard are all false for a NaN: in every state,
  \<open>setFieldOfView NaN\<close> stores the NaN, schedules a repaint and emits
  \<open>fieldOfViewChanged NaN\<close>. The stored field of view is not finite afterwards.
\<close>

theorem setFieldOfView_stores_NaN:
  "m_fieldOfView (fst (setFieldOfView NaN s)) = NaN
   \<and> snd (setFieldOfView NaN s) =
       [Polish, Update, Emit (fieldOfViewChanged NaN) (fst (setFieldOfView NaN s))]
   \<and> signals (snd (setFieldOfView NaN s)) = [fieldOfViewChanged NaN]
   \<and> qIsFinite (fieldOfView (fst (setFieldOfView NaN s))) = False"
  by (simp add: setFieldOfView_def fp_gt_def updateSphere_def fieldOfView_def)

subsection \<open>Elevation\<close>

text \<open>
  The value the setter stores: a non-finite argument and one equal to the stored value
  leave the item as it is; any other argument is clamped into \<open>[-90, 90]\<close> and stored.
\<close>

lemma qBound_d_Finite:
  "qBound_d (Finite (- 90)) (Finite x) (Finite 90) = Finite (max (- 90) (min 90 x))"
  by (simp add: qBound_d_def qMax_d_def qMin_d_def max_def min_def)

lemma setElevation_stored:
  "m_elevation (fst (setElevation e s)) =
     (case e of
        Finite x \<Rightarrow>
          if fp_eq e (m_elevation s) then m_elevation s
          else Finite (max (- 90) (min 90 x))
      | _ \<Rightarrow> m_elevation s)"
  by (cases e) (simp_all add: setElevation_def updateSphere_def qBound_d_Finite Let_def)

text \<open>
  C2. The claim: \<open>setElevation e\<close> is a no-op, with no \<open>elevationChanged\<close>, whenever the
  value after clamping equals the stored elevation. The setter compares the argument with
  the stored value before it clamps. With the elevation at 90 (after \<open>setElevation 90\<close> on a
  new item), \<open>setElevation 100\<close> clamps to 90, the value stored already, and still schedules
  a repaint and emits \<open>elevationChanged 90\<close>.
\<close>

theorem setElevation_notifies_unchanged:
  "elevation (fst (setElevation (Finite 90) QmlPhotoSphere_new)) = Finite 90
   \<and> qBound_d (Finite (- 90)) (Finite 100) (Finite 90) = Finite 90
   \<and> elevation (fst (setElevation (Finite 100)
         (fst (setElevation (Finite 90) QmlPhotoSphere_new)))) = Finite 90
   \<and> signals (snd (setElevation (Finite 100)
         (fst (setElevation (Finite 90) QmlPhotoSphere_new)))) = [elevationChanged (Finite 90)]"
  by (simp add: setElevation_def QmlPhotoSphere_new_def updateSphere_def elevation_def
      qBound_d_def qMax_d_def qMin_d_def Let_def)

subsection \<open>Azimuth\<close>

text \<open>A non-finite argument leaves the item as it is.\<close>

lemma setAzimuth_not_finite:
  assumes "qIsFinite a = False"
  shows "setAzimuth a s = (s, [])"
  using assms by (simp add: setAzimuth_def)

text \<open>
  An argument that is not negative is reduced by \<^verbatim>\<open>fmod\<close> alone, without rounding: the
  value the setter compares and stores is \<open>x - 360 * \<lfloor>x / 360\<rfloor>\<close>, which is in \<open>[0, 360)\<close>; the
  call is a no-op when that value is the stored one.
\<close>

lemma setAzimuth_nonneg:
  assumes "0 \<le> x"
  defines "r \<equiv> x - of_int \<lfloor>x / 360\<rfloor> * 360"
  shows "0 \<le> r \<and> r < 360
    \<and> setAzimuth (Finite x) s =
        (if fp_eq (Finite r) (m_azimuth s) then (s, [])
         else (s\<lparr>m_azimuth := Finite r, m_nodeDirty := True\<rparr>,
               [Polish, Update,
                Emit (azimuthChanged (Finite r)) (s\<lparr>m_azimuth := Finite r, m_nodeDirty := True\<rparr>)]))"
proof -
  have t: "trunc (x / 360) = \<lfloor>x / 360\<rfloor>" using assms(1) by (simp add: trunc_def)
  have lo: "of_int \<lfloor>x / 360\<rfloor> \<le> x / 360" by (rule of_int_floor_le)
  have hi: "x / 360 < of_int \<lfloor>x / 360\<rfloor> + 1" using floor_correct[of "x / 360"] by simp
  have r0: "0 \<le> r" using lo by (simp add: r_def field_simps)
  have r1: "r < 360" using hi by (simp add: r_def field_simps)
  have f: "fmod (Finite x) (Finite 360) = Finite r" by (simp add: t r_def)
  show ?thesis
    using r0 r1 by (simp add: setAzimuth_def f updateSphere_def Let_def del: fmod.simps)
qed

text \<open>
  A negative argument above \<open>- 2^-45\<close> is returned by \<^verbatim>\<open>fmod\<close> as it is, and the sum
  with 360 rounds to 360, the doubles next to 360 being \<open>2^-44\<close> apart: the setter compares
  and stores 360.
\<close>

lemma to_double_just_below_360:
  assumes "- (1 / 35184372088832) < x" "x < 0"
  shows "to_double (x + 360) = Finite 360"
proof -
  have b: "binade \<bar>x + 360\<bar> = 8"
    using assms by (intro binade_eqI) (simp_all add: power_int_def abs_if)
  have q: "(2::rat) powi (- 44) = 1 / 17592186044416"
    by (simp add: power_int_minus inverse_eq_divide)
  have e: "(x + 360) * 17592186044416 = of_int 6333186975989759 + (1 + x * 17592186044416)"
    by simp
  have lo: "1 / 2 < 1 + x * 17592186044416" using assms by simp
  have hi: "1 + x * 17592186044416 < 1" using assms by simp
  have f: "\<lfloor>(x + 360) * 17592186044416\<rfloor> = 6333186975989759"
    unfolding e using lo hi by (intro floor_unique) simp_all
  have r: "round_even ((x + 360) * 17592186044416) = 6333186975989760"
    using lo hi f by (simp add: round_even_def Let_def)
  have nz: "x + 360 \<noteq> 0" using assms by simp
  show ?thesis
    using nz r by (simp add: to_double_def fp_round_def b q Let_def)
qed

lemma fmod_small_negative:
  assumes "- 360 < x" "x < 0"
  shows "fmod (Finite x) (Finite 360) = Finite x"
proof -
  have "\<lceil>x / 360\<rceil> = 0"
    using assms by (intro ceiling_unique) simp_all
  then show ?thesis using assms by (simp add: trunc_def)
qed

lemma setAzimuth_just_below_zero:
  assumes "- (1 / 35184372088832) < x" "x < 0"
  shows "setAzimuth (Finite x) s =
     (if fp_eq (Finite 360) (m_azimuth s) then (s, [])
      else (s\<lparr>m_azimuth := Finite 360, m_nodeDirty := True\<rparr>,
            [Polish, Update,
             Emit (azimuthChanged (Finite 360)) (s\<lparr>m_azimuth := Finite 360, m_nodeDirty := True\<rparr>)]))"
proof -
  have f: "fmod (Finite x) (Finite 360) = Finite x"
    using assms by (intro fmod_small_negative) simp_all
  have a: "d_add (Finite x) (Finite 360) = Finite 360"
    using to_double_just_below_360[OF assms] by (simp add: d_add_def)
  show ?thesis
    using assms(2) by (simp add: setAzimuth_def f a updateSphere_def Let_def del: fmod.simps)
qed

text \<open>The two steps of the setter on the argument \<open>- 2^-46\<close>: \<^verbatim>\<open>fmod\<close> returns it, and
  adding 360 rounds to 360.\<close>

lemma to_double_below_360:
  "to_double (25332747903959039 / 70368744177664) = Finite 360"
proof -
  have b: "binade (25332747903959039 / 70368744177664) = 8"
    by (rule binade_eqI) (simp_all add: power_int_def)
  have q: "(2::rat) powi (- 44) = 1 / 17592186044416"
    by (simp add: power_int_minus inverse_eq_divide)
  have f: "\<lfloor>25332747903959039 / 4 :: rat\<rfloor> = 6333186975989759"
    by (rule floor_unique) simp_all
  have r: "round_even (25332747903959039 / 4) = 6333186975989760"
    by (simp add: round_even_def Let_def f)
  show ?thesis
    by (simp add: to_double_def fp_round_def b q r Let_def)
qed

lemma fmod_tiny_negative:
  "fmod (Finite (- (1 / 70368744177664))) (Finite 360) = Finite (- (1 / 70368744177664))"
proof -
  have "\<lceil>- (1 / 25332747903959040) :: rat\<rceil> = 0"
    by (rule ceiling_unique) simp_all
  then show ?thesis by (simp add: trunc_def)
qed

text \<open>
  C3. The claim: for a finite \<open>a\<close>, \<open>setAzimuth a\<close> stores \<open>((a mod 360) + 360) mod 360\<close>, a
  value of \<open>[0, 360)\<close>. For \<open>a = - 2^-46 = - 1 / 70368744177664\<close> (about \<open>- 1.4e-14\<close>)
  \<^verbatim>\<open>fmod\<close> returns \<open>a\<close>, which is negative, and \<^verbatim>\<open>azimuth += 360.0\<close> rounds the sum to a
  double: the doubles next to 360 are \<open>2^-44\<close> apart, so the sum rounds to 360. On a new item the setter stores 360 and emits
  \<open>azimuthChanged 360\<close>: the stored azimuth is outside \<open>[0, 360)\<close>.
\<close>

theorem setAzimuth_stores_360:
  "m_azimuth (fst (setAzimuth (Finite (- (1 / 70368744177664))) QmlPhotoSphere_new))
     = Finite 360
   \<and> signals (snd (setAzimuth (Finite (- (1 / 70368744177664))) QmlPhotoSphere_new))
       = [azimuthChanged (Finite 360)]
   \<and> fp_lt (azimuth (fst (setAzimuth (Finite (- (1 / 70368744177664))) QmlPhotoSphere_new)))
        (Finite 360) = False"
proof -
  have a: "d_add (Finite (- (1 / 70368744177664))) (Finite 360) = Finite 360"
    by (simp add: d_add_def to_double_below_360)
  show ?thesis
    by (simp add: setAzimuth_def QmlPhotoSphere_new_def updateSphere_def azimuth_def
        fmod_tiny_negative a Let_def del: fmod.simps)
qed

section \<open>Loading and setting a source\<close>

text \<open>
  What the loops of \<open>loadFromCubeMap\<close> decide, when the call does not return, what the two
  loaders return and leave, and what \<open>setSource\<close> makes of it. A loader that returns
  failure leaves the item as it was and emits nothing; one that succeeds on a new locator
  stores locator and bytes and emits \<open>sourceChanged\<close> once.
\<close>

lemma vm_equal_keys:
  assumes "vm_equal env a b"
  shows "map fst a = map fst b"
proof (cases "a = b")
  case True
  then show ?thesis by simp
next
  case False
  with assms have "list_all2 (\<lambda>x y. fst x = fst y \<and> qv_equal env (snd x) (snd y)) a b"
    by (simp add: vm_equal_def split: if_splits)
  then show ?thesis by (induction rule: list_all2_induct) simp_all
qed

lemma vm_equal_empty:
  assumes "vm_equal env a b"
  shows "(a = []) = (b = [])"
  using assms by (auto simp: vm_equal_def split: if_splits)

lemma vm_equal_same:
  assumes "variant_equal env = (\<lambda>v w. v = w)"
  shows "vm_equal env a b = (a = b)"
proof -
  have q: "qv_equal env v w = (v = w)" for v w
    using assms by (cases "(env, v, w)" rule: qv_equal.cases) simp_all
  have "(\<lambda>x y. fst x = fst y \<and> qv_equal env (snd x) (snd y)) = (\<lambda>x y :: string \<times> QVariant. x = y)"
    by (intro ext) (auto simp: q prod_eq_iff)
  then show ?thesis
    by (auto simp: vm_equal_def list_all2_eq[symmetric] dest: list_all2_lengthD)
qed

lemma check_keys_ok_iff:
  "(check_keys cubeMap ks = KeysOk) =
     (\<forall>k\<in>set ks. k \<in> fst ` set cubeMap \<and> canConvert_QString (vm_value cubeMap k))"
  by (induction ks) auto

lemma check_keys_missing:
  assumes "check_keys cubeMap ks = KeyMissing"
  shows "\<exists>k\<in>set ks. k \<notin> fst ` set cubeMap"
  using assms by (induction ks) (auto split: if_splits)

lemma check_keys_missing_strings:
  assumes "\<exists>k\<in>set ks. k \<notin> fst ` set cubeMap"
    and "\<forall>k\<in>set ks. k \<in> fst ` set cubeMap \<longrightarrow> canConvert_QString (vm_value cubeMap k)"
  shows "check_keys cubeMap ks = KeyMissing"
  using assms by (induction ks) auto

lemma urls_valid_iff:
  "urls_valid env cubeMap ks = (\<forall>k\<in>set ks. url_isValid env (toString (vm_value cubeMap k)))"
  by (induction ks) auto

lemma fetch_faces_result:
  "fst (fetch_faces env cubeMap ks acc ws) =
     (if \<forall>k\<in>set ks. image_ok env (fetched env cubeMap k)
      then Some (fold (\<lambda>k m. qm_insert env m (nameToCubeFace k) (fetched env cubeMap k)) ks acc)
      else None)"
  by (induction ks arbitrary: acc ws) (auto simp: fetched_def split: prod.splits)

lemma signals_append: "signals (xs @ ys) = signals xs @ signals ys"
  by (induction xs rule: signals.induct) auto

lemma signals_fetchUrl: "signals (snd (fetchUrl env u)) = []"
  by (simp add: fetchUrl_def split: option.splits)

lemma fetch_faces_signals:
  "signals (snd (fetch_faces env cubeMap ks acc ws)) = signals ws"
proof (induction ks arbitrary: acc ws)
  case Nil
  then show ?case by simp
next
  case (Cons k ks)
  have "signals (snd (fetchUrl env (toString (vm_value cubeMap k)))) = []"
    by (rule signals_fetchUrl)
  then show ?case
    using Cons by (cases "fetchUrl env (toString (vm_value cubeMap k))") (simp add: signals_append)
qed

lemma fold_insert_required:
  "fold (\<lambda>k m. qm_insert env m (nameToCubeFace k) (fetched env cubeMap k)) requiredKeys
     CubeFaceMap_null = cube_faces env cubeMap"
  by (simp add: requiredKeys_def qm_insert_def CubeFaceMap_null_def nameToCubeFace_def cube_faces_def)

lemma fetch_required:
  assumes "fetch_faces env cubeMap requiredKeys CubeFaceMap_null [] = (r, ws)"
  shows "r = (if \<forall>k\<in>set requiredKeys. image_ok env (fetched env cubeMap k)
              then Some (cube_faces env cubeMap) else None)"
    and "signals ws = []"
proof -
  have "fst (fetch_faces env cubeMap requiredKeys CubeFaceMap_null []) =
     (if \<forall>k\<in>set requiredKeys. image_ok env (fetched env cubeMap k)
      then Some (cube_faces env cubeMap) else None)"
    by (simp only: fetch_faces_result fold_insert_required)
  with assms show "r = (if \<forall>k\<in>set requiredKeys. image_ok env (fetched env cubeMap k)
              then Some (cube_faces env cubeMap) else None)"
    by simp
  have "signals (snd (fetch_faces env cubeMap requiredKeys CubeFaceMap_null [])) = []"
    by (simp add: fetch_faces_signals)
  with assms show "signals ws = []" by simp
qed

lemma loadFromCubeMap_aborts:
  "(loadFromCubeMap env cubeMap s = None) =
     (qt_assertions env \<and> cubeMap \<noteq> [] \<and> \<not> vm_equal env (m_cubeMapUrls s) cubeMap
      \<and> check_keys cubeMap requiredKeys = KeyMissing)"
  by (auto simp: loadFromCubeMap_def updateSphere_def Let_def
      split: key_check.splits prod.splits option.splits)

lemma loadFromCubeMap_ok:
  assumes "loadFromCubeMap env cubeMap s = Some (ok, s', es)"
  shows "ok = (cubeMap \<noteq> [] \<and>
     (vm_equal env (m_cubeMapUrls s) cubeMap \<or> (\<forall>k\<in>set requiredKeys. face_ok env cubeMap k)))"
proof (cases "check_keys cubeMap requiredKeys")
  case KeysOk
  then have k: "\<forall>k\<in>set requiredKeys. k \<in> fst ` set cubeMap \<and> canConvert_QString (vm_value cubeMap k)"
    by (simp add: check_keys_ok_iff)
  obtain r ws where f: "fetch_faces env cubeMap requiredKeys CubeFaceMap_null [] = (r, ws)"
    by (cases "fetch_faces env cubeMap requiredKeys CubeFaceMap_null []")
  show ?thesis
    using assms KeysOk k f fetch_required(1)[OF f]
    by (auto simp: loadFromCubeMap_def urls_valid_iff face_ok_def updateSphere_def Let_def
        split: prod.splits option.splits if_splits)
next
  case KeyMissing
  from check_keys_missing[OF this] have "\<not> (\<forall>k\<in>set requiredKeys. face_ok env cubeMap k)"
    by (auto simp: face_ok_def)
  then show ?thesis
    using assms KeyMissing by (auto simp: loadFromCubeMap_def split: if_splits)
next
  case KeyNotConvertible
  then have "check_keys cubeMap requiredKeys \<noteq> KeysOk" by simp
  then have "\<not> (\<forall>k\<in>set requiredKeys. face_ok env cubeMap k)"
    unfolding check_keys_ok_iff by (auto simp: face_ok_def)
  then show ?thesis
    using assms KeyNotConvertible by (auto simp: loadFromCubeMap_def split: if_splits)
qed

lemma loadFromCubeMap_failure:
  assumes "loadFromCubeMap env cubeMap s = Some (False, s', es)"
  shows "s' = s \<and> signals es = []"
proof -
  obtain r ws where f: "fetch_faces env cubeMap requiredKeys CubeFaceMap_null [] = (r, ws)"
    by (cases "fetch_faces env cubeMap requiredKeys CubeFaceMap_null []")
  show ?thesis
    using assms f fetch_required(2)[OF f]
    by (auto simp: loadFromCubeMap_def updateSphere_def Let_def
        split: key_check.splits prod.splits option.splits if_splits)
qed

lemma loadFromCubeMap_same:
  assumes "cubeMap \<noteq> []" "vm_equal env (m_cubeMapUrls s) cubeMap"
  shows "loadFromCubeMap env cubeMap s = Some (True, s, [])"
  using assms by (simp add: loadFromCubeMap_def)

lemma loadFromCubeMap_success:
  assumes "loadFromCubeMap env cubeMap s = Some (True, s', es)"
    and "\<not> vm_equal env (m_cubeMapUrls s) cubeMap"
  shows "s' = s\<lparr>m_cubeMap := cube_faces env cubeMap, m_cubeMapUrls := cubeMap, m_nodeDirty := True\<rparr>
    \<and> signals es = [sourceChanged]"
proof -
  obtain r ws where f: "fetch_faces env cubeMap requiredKeys CubeFaceMap_null [] = (r, ws)"
    by (cases "fetch_faces env cubeMap requiredKeys CubeFaceMap_null []")
  show ?thesis
    using assms f fetch_required[OF f]
    by (auto simp: loadFromCubeMap_def updateSphere_def Let_def signals_append
        split: key_check.splits prod.splits option.splits if_splits)
qed

lemma loadFromCubeMap_loads:
  assumes "cubeMap \<noteq> []" "\<not> vm_equal env (m_cubeMapUrls s) cubeMap"
    and "\<forall>k\<in>set requiredKeys. face_ok env cubeMap k"
  shows "\<exists>es. loadFromCubeMap env cubeMap s =
           Some (True,
             s\<lparr>m_cubeMap := cube_faces env cubeMap, m_cubeMapUrls := cubeMap, m_nodeDirty := True\<rparr>,
             es)"
proof -
  have "check_keys cubeMap requiredKeys = KeysOk"
    using assms(3) by (simp add: check_keys_ok_iff face_ok_def)
  then have "loadFromCubeMap env cubeMap s \<noteq> None" by (simp add: loadFromCubeMap_aborts)
  then obtain ok s' es where r: "loadFromCubeMap env cubeMap s = Some (ok, s', es)" by auto
  from loadFromCubeMap_ok[OF r] assms have "ok" by simp
  with r loadFromCubeMap_success[of env cubeMap s s' es] assms(2) show ?thesis by simp
qed

lemma loadFromUrl_ok:
  "fst (loadFromUrl env url s) =
     (url \<noteq> [] \<and> (url = m_imageUrl s \<or> (url_isValid env url \<and> image_ok env (fst (fetchUrl env url)))))"
  by (auto simp: loadFromUrl_def updateSphere_def Let_def split: prod.splits)

lemma loadFromUrl_failure:
  assumes "fst (loadFromUrl env url s) = False"
  shows "fst (snd (loadFromUrl env url s)) = s \<and> signals (snd (snd (loadFromUrl env url s))) = []"
  using assms signals_fetchUrl[of env url]
  by (auto simp: loadFromUrl_def updateSphere_def Let_def signals_append split: prod.splits if_splits)

lemma loadFromUrl_same:
  assumes "url \<noteq> []" "url = m_imageUrl s"
  shows "loadFromUrl env url s = (True, s, [])"
  using assms by (simp add: loadFromUrl_def)

lemma loadFromUrl_success:
  assumes "fst (loadFromUrl env url s)" "url \<noteq> m_imageUrl s"
  shows "loadFromUrl env url s =
     (True, s\<lparr>m_imageUrl := url, m_image := fst (fetchUrl env url), m_nodeDirty := True\<rparr>,
      snd (fetchUrl env url) @ [Polish, Update,
        Emit sourceChanged
          (s\<lparr>m_imageUrl := url, m_image := fst (fetchUrl env url), m_nodeDirty := True\<rparr>)])"
  using assms
  by (auto simp: loadFromUrl_def updateSphere_def Let_def split: prod.splits if_splits)

text \<open>\<open>setSource\<close> with a string returns; after a load that succeeded the item has the
  locator and no cube map, after one that failed it is as it was.\<close>

lemma setSource_url_returns:
  assumes "canConvert_QString src"
  shows "\<exists>s' es. setSource env src s = Some (s', es)"
  using assms by (cases "loadFromUrl env (toString src) s") (simp add: setSource_def)

lemma setSource_url_success:
  assumes "canConvert_QString src" "fst (loadFromUrl env (toString src) s)"
    and "setSource env src s = Some (s', es)"
  shows "m_imageUrl s' = toString src \<and> m_cubeMap s' = CubeFaceMap_null \<and> m_cubeMapUrls s' = []"
proof (cases "toString src = m_imageUrl s")
  case True
  with assms(2) have "toString src \<noteq> []" by (simp add: loadFromUrl_ok)
  with True assms(1,3) show ?thesis by (auto simp: setSource_def loadFromUrl_same)
next
  case False
  show ?thesis
    using assms(1,3) by (auto simp: setSource_def loadFromUrl_success[OF assms(2) False])
qed

lemma setSource_url_failed:
  assumes "canConvert_QString src" "\<not> fst (loadFromUrl env (toString src) s)"
    and "setSource env src s = Some (s', es)"
  shows "s' = s"
proof -
  obtain ok s1 es1 where r: "loadFromUrl env (toString src) s = (ok, s1, es1)"
    by (cases "loadFromUrl env (toString src) s")
  with assms loadFromUrl_failure[of env "toString src" s] show ?thesis
    by (auto simp: setSource_def)
qed

text \<open>\<open>setSource\<close> with a map: after a load that succeeded the item has the locators of
  the map, or the stored ones when the map compares equal to them, and no single image;
  after one that failed it is as it was.\<close>

lemma setSource_cube_success:
  assumes "\<not> canConvert_QString src" "loadFromCubeMap env (toMap src) s = Some (True, s1, es1)"
    and "setSource env src s = Some (s', es)"
  shows "m_cubeMapUrls s' =
      (if vm_equal env (m_cubeMapUrls s) (toMap src) then m_cubeMapUrls s else toMap src)
    \<and> m_cubeMapUrls s' \<noteq> []
    \<and> m_image s' = QByteArray_null \<and> m_imageUrl s' = []"
proof -
  have ne: "toMap src \<noteq> []" using loadFromCubeMap_ok[OF assms(2)] by simp
  then have cm: "canConvert_QVariantMap src" by (cases src) auto
  show ?thesis
  proof (cases "vm_equal env (m_cubeMapUrls s) (toMap src)")
    case True
    from vm_equal_empty[OF True] ne have "m_cubeMapUrls s \<noteq> []" by simp
    with True ne assms cm show ?thesis by (auto simp: setSource_def loadFromCubeMap_same)
  next
    case False
    from loadFromCubeMap_success[OF assms(2) False] ne assms cm False show ?thesis
      by (auto simp: setSource_def)
  qed
qed

lemma setSource_cube_failed:
  assumes "\<not> canConvert_QString src" "loadFromCubeMap env (toMap src) s = Some (False, s1, es1)"
    and "setSource env src s = Some (s', es)"
  shows "s' = s"
  using assms loadFromCubeMap_failure[OF assms(2)]
  by (auto simp: setSource_def split: if_splits)

lemma setSource_other:
  assumes "\<not> canConvert_QString src" "\<not> canConvert_QVariantMap src"
  shows "setSource env src s = Some (s, [])"
  using assms by (simp add: setSource_def)

lemma setSource_cube_result:
  assumes "\<not> canConvert_QString src" "canConvert_QVariantMap src"
    and "setSource env src s = Some (s', es)"
  shows "\<exists>ok s1 es1. loadFromCubeMap env (toMap src) s = Some (ok, s1, es1)"
  using assms by (auto simp: setSource_def split: option.splits)

subsection \<open>What every sequence of setter calls keeps\<close>

text \<open>At most one source variant is populated.\<close>

lemma exclusive_setSource:
  assumes "exclusive s" "setSource env src s = Some (s', es)"
  shows "exclusive s'"
proof (cases "canConvert_QString src")
  case True
  show ?thesis
  proof (cases "fst (loadFromUrl env (toString src) s)")
    case ok: True
    from setSource_url_success[OF True ok assms(2)] show ?thesis
      by (simp add: exclusive_def cube_populated_def CubeFaceMap_null_def)
  next
    case False
    from setSource_url_failed[OF True False assms(2)] assms(1) show ?thesis by simp
  qed
next
  case False
  show ?thesis
  proof (cases "canConvert_QVariantMap src")
    case cm: True
    from setSource_cube_result[OF False cm assms(2)] obtain ok s1 es1 where
      r: "loadFromCubeMap env (toMap src) s = Some (ok, s1, es1)" by blast
    show ?thesis
    proof (cases ok)
      case True
      with r setSource_cube_success[OF False _ assms(2)] show ?thesis
        by (simp add: exclusive_def image_populated_def QByteArray_null_def)
    next
      case no: False
      with r setSource_cube_failed[OF False _ assms(2)] assms(1) show ?thesis by simp
    qed
  next
    case ncm: False
    with assms False show ?thesis by (simp add: setSource_other)
  qed
qed

lemma exclusive_do_call:
  assumes "exclusive s" "do_call c s = Some (s', es)"
  shows "exclusive s'"
proof (cases c)
  case (SetAzimuth a)
  with assms show ?thesis
    by (auto simp: setAzimuth_def updateSphere_def Let_def exclusive_def image_populated_def
        cube_populated_def split: if_splits)
next
  case (SetElevation e)
  with assms show ?thesis
    by (auto simp: setElevation_def updateSphere_def Let_def exclusive_def image_populated_def
        cube_populated_def split: if_splits)
next
  case (SetFieldOfView f)
  with assms show ?thesis
    by (auto simp: setFieldOfView_def updateSphere_def Let_def exclusive_def image_populated_def
        cube_populated_def split: if_splits)
next
  case (SetSource env src)
  with assms(2) have "setSource env src s = Some (s', es)" by simp
  from exclusive_setSource[OF assms(1) this] show ?thesis .
next
  case (SetMaximumTextureSize n)
  with assms show ?thesis
    by (auto simp: setMaximumTextureSize_def updateSphere_def Let_def exclusive_def
        image_populated_def cube_populated_def split: if_splits)
qed

lemma exclusive_do_calls:
  assumes "exclusive s" "do_calls cs s = Some s'"
  shows "exclusive s'"
  using assms
proof (induction cs arbitrary: s)
  case Nil
  then show ?case by simp
next
  case (Cons c cs)
  from Cons.prems(2) obtain s1 es where c: "do_call c s = Some (s1, es)"
    and r: "do_calls cs s1 = Some s'"
    by (auto split: option.splits)
  from exclusive_do_call[OF Cons.prems(1) c] have "exclusive s1" .
  from Cons.IH[OF this r] show ?case .
qed

lemma exclusive_new: "exclusive QmlPhotoSphere_new"
  by (simp add: exclusive_def image_populated_def QmlPhotoSphere_new_def QByteArray_null_def)

text \<open>The stored locator mapping is empty or has passed the first loop: it has the six
  required keys, each with a string.\<close>

lemma stored_keys_setSource:
  assumes "m_cubeMapUrls s = [] \<or> check_keys (m_cubeMapUrls s) requiredKeys = KeysOk"
    and "setSource env src s = Some (s', es)"
  shows "m_cubeMapUrls s' = [] \<or> check_keys (m_cubeMapUrls s') requiredKeys = KeysOk"
proof (cases "canConvert_QString src")
  case True
  show ?thesis
  proof (cases "fst (loadFromUrl env (toString src) s)")
    case ok: True
    from setSource_url_success[OF True ok assms(2)] show ?thesis by simp
  next
    case False
    from setSource_url_failed[OF True False assms(2)] assms(1) show ?thesis by simp
  qed
next
  case False
  show ?thesis
  proof (cases "canConvert_QVariantMap src")
    case cm: True
    from setSource_cube_result[OF False cm assms(2)] obtain ok s1 es1 where
      r: "loadFromCubeMap env (toMap src) s = Some (ok, s1, es1)" by blast
    show ?thesis
    proof (cases ok)
      case True
      with r have r': "loadFromCubeMap env (toMap src) s = Some (True, s1, es1)" by simp
      from loadFromCubeMap_ok[OF r'] have
        "vm_equal env (m_cubeMapUrls s) (toMap src)
           \<or> (\<forall>k\<in>set requiredKeys. face_ok env (toMap src) k)"
        by simp
      then have "vm_equal env (m_cubeMapUrls s) (toMap src)
           \<or> check_keys (toMap src) requiredKeys = KeysOk"
        by (auto simp: check_keys_ok_iff face_ok_def)
      with setSource_cube_success[OF False r' assms(2)] assms(1) show ?thesis
        by (auto split: if_splits)
    next
      case no: False
      with r setSource_cube_failed[OF False _ assms(2)] assms(1) show ?thesis by simp
    qed
  next
    case ncm: False
    with assms False show ?thesis by (simp add: setSource_other)
  qed
qed

lemma stored_keys_do_call:
  assumes "m_cubeMapUrls s = [] \<or> check_keys (m_cubeMapUrls s) requiredKeys = KeysOk"
    and "do_call c s = Some (s', es)"
  shows "m_cubeMapUrls s' = [] \<or> check_keys (m_cubeMapUrls s') requiredKeys = KeysOk"
proof (cases c)
  case (SetSource env src)
  with assms(2) have "setSource env src s = Some (s', es)" by simp
  from stored_keys_setSource[OF assms(1) this] show ?thesis .
qed (use assms in \<open>auto simp: setAzimuth_def setElevation_def setFieldOfView_def
      setMaximumTextureSize_def updateSphere_def Let_def split: if_splits\<close>)

lemma stored_keys_do_calls:
  assumes "m_cubeMapUrls s = [] \<or> check_keys (m_cubeMapUrls s) requiredKeys = KeysOk"
    and "do_calls cs s = Some s'"
  shows "m_cubeMapUrls s' = [] \<or> check_keys (m_cubeMapUrls s') requiredKeys = KeysOk"
  using assms
proof (induction cs arbitrary: s)
  case Nil
  then show ?case by simp
next
  case (Cons c cs)
  from Cons.prems(2) obtain s1 es where c: "do_call c s = Some (s1, es)"
    and r: "do_calls cs s1 = Some s'"
    by (auto split: option.splits)
  from stored_keys_do_call[OF Cons.prems(1) c]
  have "m_cubeMapUrls s1 = [] \<or> check_keys (m_cubeMapUrls s1) requiredKeys = KeysOk" .
  from Cons.IH[OF this r] show ?case .
qed

lemma missing_key_differs:
  assumes "do_calls cs QmlPhotoSphere_new = Some s"
    and "k \<in> set requiredKeys" "k \<notin> fst ` set cubeMap"
  shows "cubeMap = [] \<or> \<not> vm_equal env (m_cubeMapUrls s) cubeMap"
proof (cases "vm_equal env (m_cubeMapUrls s) cubeMap")
  case True
  have "m_cubeMapUrls s = [] \<or> check_keys (m_cubeMapUrls s) requiredKeys = KeysOk"
    by (rule stored_keys_do_calls[OF _ assms(1)]) (simp add: QmlPhotoSphere_new_def)
  then show ?thesis
  proof
    assume "m_cubeMapUrls s = []"
    with vm_equal_empty[OF True] show ?thesis by simp
  next
    assume "check_keys (m_cubeMapUrls s) requiredKeys = KeysOk"
    with assms(2) have "k \<in> set (map fst (m_cubeMapUrls s))" by (simp add: check_keys_ok_iff)
    with vm_equal_keys[OF True] have "k \<in> fst ` set cubeMap" by simp
    with assms(3) show ?thesis by simp
  qed
next
  case False
  then show ?thesis by simp
qed

text \<open>The example sources: the six faces load on a new item, which is then the example
  item, in either build.\<close>

lemma six_faces_ok: "\<forall>k\<in>set requiredKeys. face_ok env_ex six_faces k"
  by (simp add: requiredKeys_def face_ok_def six_faces_def env_ex_def vm_value_def fetched_def
      fetchUrl_def image_ok_def jpeg_def)

lemma five_faces_missing: "check_keys five_faces requiredKeys = KeyMissing"
  by (simp add: requiredKeys_def five_faces_def vm_value_def)

lemma load_six_new:
  "\<exists>es. loadFromCubeMap env_ex six_faces QmlPhotoSphere_new = Some (True, item_cube, es)"
proof -
  have a: "six_faces \<noteq> []" by (simp add: six_faces_def)
  have b: "\<not> vm_equal env_ex (m_cubeMapUrls QmlPhotoSphere_new) six_faces"
    by (simp add: vm_equal_def QmlPhotoSphere_new_def six_faces_def)
  from loadFromCubeMap_loads[OF a b six_faces_ok] show ?thesis by (simp add: item_cube_def)
qed

lemma item_cube_reached:
  "do_calls [SetSource env_ex (VMap six_faces)] QmlPhotoSphere_new = Some item_cube"
proof -
  from load_six_new obtain es where
    r: "loadFromCubeMap env_ex six_faces QmlPhotoSphere_new = Some (True, item_cube, es)" by blast
  have "setSource env_ex (VMap six_faces) QmlPhotoSphere_new = Some (item_cube, es)"
    unfolding setSource_def
    by (simp add: r) (simp add: item_cube_def QmlPhotoSphere_new_def)
  then show ?thesis by simp
qed

lemma load_url_ex: "fst (loadFromUrl env_ex ''pano.jpg'' s) = True"
  by (simp add: loadFromUrl_ok env_ex_def fetchUrl_def image_ok_def jpeg_def)

subsection \<open>All or nothing\<close>

text \<open>A map whose six values are no strings but convert to strings loads like one of
  strings.\<close>

lemma six_urls_ok: "\<forall>k\<in>set requiredKeys. face_ok env_ex six_urls k"
  by (simp add: requiredKeys_def face_ok_def six_urls_def env_ex_def vm_value_def fetched_def
      fetchUrl_def image_ok_def jpeg_def)

lemma load_six_urls:
  "\<exists>es. loadFromCubeMap env_ex six_urls QmlPhotoSphere_new =
     Some (True,
       QmlPhotoSphere_new\<lparr>m_cubeMap := cube_faces env_ex six_urls, m_cubeMapUrls := six_urls,
         m_nodeDirty := True\<rparr>, es)"
proof -
  have a: "six_urls \<noteq> []" by (simp add: six_urls_def)
  have b: "\<not> vm_equal env_ex (m_cubeMapUrls QmlPhotoSphere_new) six_urls"
    by (simp add: vm_equal_def QmlPhotoSphere_new_def six_urls_def)
  from loadFromCubeMap_loads[OF a b six_urls_ok] show ?thesis .
qed

text \<open>
  C4, as the claim states it, fails in a build with assertions. The example item holds the
  six faces; \<open>loadFromCubeMap\<close> with the map that lacks \<open>NegativeZ\<close> reaches
  \<^verbatim>\<open>Q_ASSERT(false)\<close>, and neither it nor \<open>setSource\<close> returns: the call does not return
  failure.
\<close>

theorem loadFromCubeMap_missing_key_counterexample:
  "qt_assertions env_debug
   \<and> m_cubeMapUrls item_cube = six_faces
   \<and> loadFromCubeMap env_debug five_faces item_cube = None
   \<and> setSource env_debug (VMap five_faces) item_cube = None"
proof -
  have a: "m_cubeMapUrls item_cube = six_faces" by (simp add: item_cube_def)
  have b: "five_faces \<noteq> [] \<and> \<not> vm_equal env_debug six_faces five_faces"
    by (simp add: vm_equal_def five_faces_def six_faces_def)
  have c: "qt_assertions env_debug" by (simp add: env_debug_def)
  have d: "loadFromCubeMap env_debug five_faces item_cube = None"
    using a b c five_faces_missing by (simp add: loadFromCubeMap_aborts)
  from a c d show ?thesis by (simp add: setSource_def)
qed

text \<open>
  C4, amended. \<open>loadFromCubeMap\<close> is all-or-nothing. A call that returns failure leaves the
  item as it was, the stored byte mapping and locator mapping included, and emits no
  \<open>sourceChanged\<close>. The call does not return exactly when assertions are active, the
  mapping is not empty and does not compare equal to the stored one, and the first required
  key that is missing or has a value that does not convert to a string is a missing one. A
  call that returns, with a mapping that is empty or does not compare equal to the stored
  one, returns failure as soon as one of the six required faces is not acceptable: its key
  is missing, its value does not convert to a string, the string is no valid URL, or the
  bytes fetched do not decode to a non-empty image. In a build without assertions, in every
  state reached by setter calls from a new item, a mapping that lacks a required key
  returns failure. A call with a mapping that is not empty and compares equal to the stored
  one succeeds at once: it returns the item as it was and does nothing. A call that
  succeeds with a mapping that does not compare equal to the stored one has found all six
  faces acceptable and replaces both mappings together, the bytes by the six fetched arrays
  and the locators by the argument, with one \<open>sourceChanged\<close>; and a call with such a
  mapping and six acceptable faces, whose values may be strings or other values that
  convert to strings, does succeed so.
\<close>

theorem loadFromCubeMap_all_or_nothing:
  "(loadFromCubeMap env cubeMap s = Some (False, s', es) \<longrightarrow> s' = s \<and> signals es = [])
   \<and> ((loadFromCubeMap env cubeMap s = None) =
        (qt_assertions env \<and> cubeMap \<noteq> [] \<and> \<not> vm_equal env (m_cubeMapUrls s) cubeMap
         \<and> check_keys cubeMap requiredKeys = KeyMissing))
   \<and> ((cubeMap = [] \<or> \<not> vm_equal env (m_cubeMapUrls s) cubeMap)
        \<and> (\<exists>k\<in>set requiredKeys. \<not> face_ok env cubeMap k)
        \<and> loadFromCubeMap env cubeMap s \<noteq> None \<longrightarrow>
        (\<exists>ws. loadFromCubeMap env cubeMap s = Some (False, s, ws) \<and> signals ws = []))
   \<and> (qt_assertions env = False \<and> do_calls cs QmlPhotoSphere_new = Some s
        \<and> (\<exists>k\<in>set requiredKeys. k \<notin> fst ` set cubeMap) \<longrightarrow>
        (\<exists>ws. loadFromCubeMap env cubeMap s = Some (False, s, ws) \<and> signals ws = []))
   \<and> (cubeMap \<noteq> [] \<and> vm_equal env (m_cubeMapUrls s) cubeMap \<longrightarrow>
        loadFromCubeMap env cubeMap s = Some (True, s, []))
   \<and> (loadFromCubeMap env cubeMap s = Some (True, s', es)
        \<and> \<not> vm_equal env (m_cubeMapUrls s) cubeMap \<longrightarrow>
        (\<forall>k\<in>set requiredKeys. face_ok env cubeMap k)
        \<and> s' = s\<lparr>m_cubeMap := cube_faces env cubeMap, m_cubeMapUrls := cubeMap,
                  m_nodeDirty := True\<rparr>
        \<and> signals es = [sourceChanged])
   \<and> (\<not> vm_equal env (m_cubeMapUrls s) cubeMap
        \<and> (\<forall>k\<in>set requiredKeys. face_ok env cubeMap k) \<longrightarrow>
        (\<exists>es. loadFromCubeMap env cubeMap s =
                Some (True,
                  s\<lparr>m_cubeMap := cube_faces env cubeMap, m_cubeMapUrls := cubeMap,
                    m_nodeDirty := True\<rparr>, es)
              \<and> signals es = [sourceChanged]))"
proof -
  have fails: "\<exists>ws. loadFromCubeMap env cubeMap s = Some (False, s, ws) \<and> signals ws = []"
    if ret: "loadFromCubeMap env cubeMap s \<noteq> None"
      and bad: "cubeMap = [] \<or> \<not> vm_equal env (m_cubeMapUrls s) cubeMap"
        "\<exists>k\<in>set requiredKeys. \<not> face_ok env cubeMap k"
    for s
  proof -
    from ret obtain ok s1 ws where r: "loadFromCubeMap env cubeMap s = Some (ok, s1, ws)" by auto
    from loadFromCubeMap_ok[OF r] bad have "ok = False" by auto
    with r loadFromCubeMap_failure[of env cubeMap s s1 ws] show ?thesis by simp
  qed
  have 1: "loadFromCubeMap env cubeMap s = Some (False, s', es) \<longrightarrow> s' = s \<and> signals es = []"
    by (auto dest: loadFromCubeMap_failure)
  have 2: "(loadFromCubeMap env cubeMap s = None) =
        (qt_assertions env \<and> cubeMap \<noteq> [] \<and> \<not> vm_equal env (m_cubeMapUrls s) cubeMap
         \<and> check_keys cubeMap requiredKeys = KeyMissing)"
    by (rule loadFromCubeMap_aborts)
  have 3: "(cubeMap = [] \<or> \<not> vm_equal env (m_cubeMapUrls s) cubeMap)
        \<and> (\<exists>k\<in>set requiredKeys. \<not> face_ok env cubeMap k)
        \<and> loadFromCubeMap env cubeMap s \<noteq> None \<longrightarrow>
        (\<exists>ws. loadFromCubeMap env cubeMap s = Some (False, s, ws) \<and> signals ws = [])"
    using fails[of s] by blast
  have 4: "qt_assertions env = False \<and> do_calls cs QmlPhotoSphere_new = Some s
        \<and> (\<exists>k\<in>set requiredKeys. k \<notin> fst ` set cubeMap) \<longrightarrow>
        (\<exists>ws. loadFromCubeMap env cubeMap s = Some (False, s, ws) \<and> signals ws = [])"
  proof (intro impI, elim conjE bexE)
    fix k
    assume na: "qt_assertions env = False" and reach: "do_calls cs QmlPhotoSphere_new = Some s"
      and k: "k \<in> set requiredKeys" "k \<notin> fst ` set cubeMap"
    from na have ret: "loadFromCubeMap env cubeMap s \<noteq> None" by (simp add: loadFromCubeMap_aborts)
    from k have nf: "\<exists>k\<in>set requiredKeys. \<not> face_ok env cubeMap k" by (auto simp: face_ok_def)
    from fails[OF ret missing_key_differs[OF reach k] nf]
    show "\<exists>ws. loadFromCubeMap env cubeMap s = Some (False, s, ws) \<and> signals ws = []" .
  qed
  have 5: "cubeMap \<noteq> [] \<and> vm_equal env (m_cubeMapUrls s) cubeMap \<longrightarrow>
        loadFromCubeMap env cubeMap s = Some (True, s, [])"
    by (simp add: loadFromCubeMap_same)
  have 6: "loadFromCubeMap env cubeMap s = Some (True, s', es)
        \<and> \<not> vm_equal env (m_cubeMapUrls s) cubeMap \<longrightarrow>
        (\<forall>k\<in>set requiredKeys. face_ok env cubeMap k)
        \<and> s' = s\<lparr>m_cubeMap := cube_faces env cubeMap, m_cubeMapUrls := cubeMap,
                  m_nodeDirty := True\<rparr>
        \<and> signals es = [sourceChanged]"
    using loadFromCubeMap_ok[of env cubeMap s True s' es]
      loadFromCubeMap_success[of env cubeMap s s' es]
    by auto
  have 7: "\<not> vm_equal env (m_cubeMapUrls s) cubeMap
        \<and> (\<forall>k\<in>set requiredKeys. face_ok env cubeMap k) \<longrightarrow>
        (\<exists>es. loadFromCubeMap env cubeMap s =
                Some (True,
                  s\<lparr>m_cubeMap := cube_faces env cubeMap, m_cubeMapUrls := cubeMap,
                    m_nodeDirty := True\<rparr>, es)
              \<and> signals es = [sourceChanged])"
  proof (intro impI, elim conjE)
    assume ne: "\<not> vm_equal env (m_cubeMapUrls s) cubeMap"
      and ok: "\<forall>k\<in>set requiredKeys. face_ok env cubeMap k"
    from ok have "''PositiveX'' \<in> fst ` set cubeMap"
      by (simp add: requiredKeys_def face_ok_def)
    then have "cubeMap \<noteq> []" by auto
    from loadFromCubeMap_loads[OF this ne ok] obtain es where
      r: "loadFromCubeMap env cubeMap s =
            Some (True,
              s\<lparr>m_cubeMap := cube_faces env cubeMap, m_cubeMapUrls := cubeMap,
                m_nodeDirty := True\<rparr>, es)"
      by blast
    from loadFromCubeMap_success[OF r ne] have "signals es = [sourceChanged]" by simp
    with r show "\<exists>es. loadFromCubeMap env cubeMap s =
                Some (True,
                  s\<lparr>m_cubeMap := cube_faces env cubeMap, m_cubeMapUrls := cubeMap,
                    m_nodeDirty := True\<rparr>, es)
              \<and> signals es = [sourceChanged]"
      by blast
  qed
  from 1 2 3 4 5 6 7 show ?thesis by blast
qed

theorem loadFromCubeMap_all_or_nothing_witness:
  "(\<exists>ws. loadFromCubeMap env_ex five_faces item_cube = Some (False, item_cube, ws)
         \<and> signals ws = [])
   \<and> loadFromCubeMap env_debug five_faces item_cube = None
   \<and> loadFromCubeMap env_ex six_faces item_cube = Some (True, item_cube, [])
   \<and> (\<exists>es. loadFromCubeMap env_ex six_faces QmlPhotoSphere_new = Some (True, item_cube, es)
         \<and> signals es = [sourceChanged])
   \<and> (\<exists>es. loadFromCubeMap env_ex six_urls item_cube =
              Some (True,
                item_cube\<lparr>m_cubeMap := cube_faces env_ex six_urls, m_cubeMapUrls := six_urls,
                  m_nodeDirty := True\<rparr>, es)
         \<and> signals es = [sourceChanged])"
proof -
  have a: "m_cubeMapUrls item_cube = six_faces" by (simp add: item_cube_def)
  have b: "five_faces \<noteq> []" "six_faces \<noteq> five_faces" "six_faces \<noteq> []" "six_faces \<noteq> six_urls"
    by (simp_all add: five_faces_def six_faces_def six_urls_def)
  have c: "qt_assertions env_debug" "qt_assertions env_ex = False"
    by (simp_all add: env_debug_def env_ex_def)
  have d: "\<exists>k\<in>set requiredKeys. k \<notin> fst ` set five_faces"
    using check_keys_missing[OF five_faces_missing] .
  have e: "m_cubeMapUrls QmlPhotoSphere_new \<noteq> six_faces"
    by (simp add: QmlPhotoSphere_new_def six_faces_def)
  have v: "vm_equal env_ex x y = (x = y)" "vm_equal env_debug x y = (x = y)" for x y
    by (simp_all add: vm_equal_same env_ex_def env_debug_def)
  from load_six_new obtain es where
    r: "loadFromCubeMap env_ex six_faces QmlPhotoSphere_new = Some (True, item_cube, es)" by blast
  show ?thesis
    using loadFromCubeMap_all_or_nothing
        [of env_ex five_faces item_cube item_cube "[]" "[SetSource env_ex (VMap six_faces)]"]
      loadFromCubeMap_all_or_nothing[of env_debug five_faces item_cube item_cube "[]" "[]"]
      loadFromCubeMap_all_or_nothing[of env_ex six_faces item_cube item_cube "[]" "[]"]
      loadFromCubeMap_all_or_nothing[of env_ex six_faces QmlPhotoSphere_new item_cube es "[]"]
      loadFromCubeMap_all_or_nothing[of env_ex six_urls item_cube item_cube "[]" "[]"]
      a b c d e r v five_faces_missing item_cube_reached six_urls_ok
    by simp
qed

subsection \<open>Round trip and exclusive variants\<close>

text \<open>
  C5. A \<open>setSource\<close> with a single-image locator returns, and after one whose load
  succeeded \<open>source\<close> returns that locator. After a switch to a cube map that loaded
  (\<open>source\<close> returns its locator mapping then, which is the stored one where the two compare
  equal) and back to a single image that loaded, \<open>source\<close> returns the single-image locator,
  and the stored byte mapping and locator mapping of the cube map are empty. After every
  sequence of setter calls on a new item at most one of the two variants is populated.
\<close>

theorem source_round_trip_exclusive:
  "setSource env (VString url) s \<noteq> None
   \<and> (fst (loadFromUrl env url s) \<and> setSource env (VString url) s = Some (s1, es1) \<longrightarrow>
        source s1 = VString url)
   \<and> (loadFromCubeMap env1 cubeMap s = Some (True, sl, el)
        \<and> setSource env1 (VMap cubeMap) s = Some (sc, ec)
        \<and> fst (loadFromUrl env2 url sc)
        \<and> setSource env2 (VString url) sc = Some (si, ei) \<longrightarrow>
        source sc =
          VMap (if vm_equal env1 (m_cubeMapUrls s) cubeMap then m_cubeMapUrls s else cubeMap)
        \<and> source si = VString url
        \<and> m_cubeMap si = CubeFaceMap_null
        \<and> m_cubeMapUrls si = [])
   \<and> (do_calls cs QmlPhotoSphere_new = Some s' \<longrightarrow> exclusive s')"
proof -
  have 0: "setSource env (VString url) s \<noteq> None"
    using setSource_url_returns[of "VString url" env s] by auto
  have 1: "fst (loadFromUrl env url s) \<and> setSource env (VString url) s = Some (s1, es1) \<longrightarrow>
        source s1 = VString url"
    using setSource_url_success[of "VString url" env s s1 es1] by (auto simp: source_def)
  have 2: "loadFromCubeMap env1 cubeMap s = Some (True, sl, el)
        \<and> setSource env1 (VMap cubeMap) s = Some (sc, ec)
        \<and> fst (loadFromUrl env2 url sc)
        \<and> setSource env2 (VString url) sc = Some (si, ei) \<longrightarrow>
        source sc =
          VMap (if vm_equal env1 (m_cubeMapUrls s) cubeMap then m_cubeMapUrls s else cubeMap)
        \<and> source si = VString url
        \<and> m_cubeMap si = CubeFaceMap_null
        \<and> m_cubeMapUrls si = []"
    using setSource_cube_success[of "VMap cubeMap" env1 s sl el sc ec]
      setSource_url_success[of "VString url" env2 sc si ei]
    by (auto simp: source_def)
  have 3: "do_calls cs QmlPhotoSphere_new = Some s' \<longrightarrow> exclusive s'"
    using exclusive_do_calls[OF exclusive_new] by blast
  from 0 1 2 3 show ?thesis by blast
qed

theorem source_round_trip_exclusive_witness:
  "(\<exists>s1 es1. setSource env_ex (VString ''pano.jpg'') QmlPhotoSphere_new = Some (s1, es1)
       \<and> source s1 = VString ''pano.jpg'')
   \<and> (\<exists>es. setSource env_ex (VMap six_faces) QmlPhotoSphere_new = Some (item_cube, es))
   \<and> source item_cube = VMap six_faces
   \<and> (\<exists>si ei. setSource env_ex (VString ''pano.jpg'') item_cube = Some (si, ei)
       \<and> source si = VString ''pano.jpg'' \<and> m_cubeMap si = CubeFaceMap_null
       \<and> m_cubeMapUrls si = [])
   \<and> exclusive item_cube"
proof -
  from load_six_new obtain el where
    l: "loadFromCubeMap env_ex six_faces QmlPhotoSphere_new = Some (True, item_cube, el)" by blast
  have c: "setSource env_ex (VMap six_faces) QmlPhotoSphere_new = Some (item_cube, el)"
    unfolding setSource_def by (simp add: l) (simp add: item_cube_def QmlPhotoSphere_new_def)
  obtain s1 es1 where a: "setSource env_ex (VString ''pano.jpg'') QmlPhotoSphere_new = Some (s1, es1)"
    using source_round_trip_exclusive[of env_ex "''pano.jpg''" QmlPhotoSphere_new] by fastforce
  obtain si ei where b: "setSource env_ex (VString ''pano.jpg'') item_cube = Some (si, ei)"
    using source_round_trip_exclusive[of env_ex "''pano.jpg''" item_cube] by fastforce
  show ?thesis
    using source_round_trip_exclusive[of env_ex "''pano.jpg''" QmlPhotoSphere_new s1 es1
        env_ex six_faces item_cube el item_cube el env_ex si ei
        "[SetSource env_ex (VMap six_faces)]" item_cube]
      a b c l load_url_ex item_cube_reached
    by (simp add: vm_equal_def QmlPhotoSphere_new_def six_faces_def)
qed

subsection \<open>The emission inside the single-image load\<close>

text \<open>
  C10. With a cube map as the current source, \<open>setSource\<close> with a single-image locator that
  loads emits \<open>sourceChanged\<close> once, from inside \<open>loadFromUrl\<close> and before the cube map is
  cleared: at the emission the item has the new locator and bytes of the image and still
  the locator and byte mappings of the cube map, so both variants are populated and
  \<open>source\<close> returns the old cube-map mapping. After the call \<open>source\<close> returns the new
  locator and the cube-map mappings are empty.
\<close>

theorem setSource_emits_before_clearing:
  assumes "m_cubeMapUrls s \<noteq> []" and "exclusive s"
    and "url \<noteq> []" and "url_isValid env url" and "image_ok env (fst (fetchUrl env url))"
  shows "\<exists>s2 es.
           setSource env (VString url) s = Some (s2, es)
           \<and> emissions es =
               [(sourceChanged,
                 s\<lparr>m_imageUrl := url, m_image := fst (fetchUrl env url), m_nodeDirty := True\<rparr>)]
           \<and> source (s\<lparr>m_imageUrl := url, m_image := fst (fetchUrl env url),
                        m_nodeDirty := True\<rparr>) = VMap (m_cubeMapUrls s)
           \<and> image_populated (s\<lparr>m_imageUrl := url, m_image := fst (fetchUrl env url),
                        m_nodeDirty := True\<rparr>)
           \<and> cube_populated (s\<lparr>m_imageUrl := url, m_image := fst (fetchUrl env url),
                        m_nodeDirty := True\<rparr>)
           \<and> source s2 = VString url
           \<and> m_cubeMapUrls s2 = [] \<and> m_cubeMap s2 = CubeFaceMap_null"
proof -
  have u: "m_imageUrl s = []"
    using assms(1,2) by (simp add: exclusive_def image_populated_def cube_populated_def)
  with assms(3) have ne: "url \<noteq> m_imageUrl s" by simp
  have ok: "fst (loadFromUrl env url s)"
    using assms by (simp add: loadFromUrl_ok)
  have em: "emissions (snd (fetchUrl env url)) = []"
    by (simp add: fetchUrl_def split: option.splits)
  have ap: "emissions (xs @ ys) = emissions xs @ emissions ys" for xs ys
    by (induction xs rule: emissions.induct) auto
  show ?thesis
    using assms(1,3) em
    by (simp add: setSource_def loadFromUrl_success[OF ok ne] source_def Let_def ap
        image_populated_def cube_populated_def)
qed

theorem setSource_emits_before_clearing_witness:
  "\<exists>s2 es. setSource env_ex (VString ''pano.jpg'') item_cube = Some (s2, es)
     \<and> emissions es
         = [(sourceChanged,
             item_cube\<lparr>m_imageUrl := ''pano.jpg'', m_image := jpeg, m_nodeDirty := True\<rparr>)]
     \<and> source (item_cube\<lparr>m_imageUrl := ''pano.jpg'', m_image := jpeg, m_nodeDirty := True\<rparr>)
         = VMap six_faces
     \<and> source s2 = VString ''pano.jpg''"
proof -
  have a: "m_cubeMapUrls item_cube \<noteq> []" by (simp add: item_cube_def six_faces_def)
  have b: "exclusive item_cube"
    by (rule exclusive_do_calls[OF exclusive_new item_cube_reached])
  have c: "fst (fetchUrl env_ex ''pano.jpg'') = jpeg" by (simp add: fetchUrl_def env_ex_def)
  have d: "image_ok env_ex jpeg" by (simp add: env_ex_def image_ok_def jpeg_def)
  have e: "url_isValid env_ex ''pano.jpg''" by (simp add: env_ex_def)
  have f: "m_cubeMapUrls item_cube = six_faces" by (simp add: item_cube_def)
  show ?thesis
    using setSource_emits_before_clearing[of item_cube "''pano.jpg''" env_ex] a b c d e f
    by fastforce
qed

section \<open>The texture size limit and the device capability\<close>

text \<open>No setter writes the cached device capability \<open>m_glMaxTexSize\<close>; \<open>synchronize\<close>
  writes the capability of the renderer back to the item and leaves the user limit.\<close>

lemma loadFromUrl_glMax:
  "m_glMaxTexSize (fst (snd (loadFromUrl env url s))) = m_glMaxTexSize s"
proof (cases "fst (loadFromUrl env url s)")
  case True
  show ?thesis
  proof (cases "url = m_imageUrl s")
    case same: True
    with True have "url \<noteq> []" by (simp add: loadFromUrl_ok)
    with same show ?thesis by (simp add: loadFromUrl_same)
  next
    case False
    show ?thesis by (simp add: loadFromUrl_success[OF True False])
  qed
next
  case False
  then show ?thesis by (simp add: loadFromUrl_failure)
qed

lemma loadFromCubeMap_glMax:
  assumes "loadFromCubeMap env cubeMap s = Some (ok, s', es)"
  shows "m_glMaxTexSize s' = m_glMaxTexSize s"
proof (cases ok)
  case True
  show ?thesis
  proof (cases "vm_equal env (m_cubeMapUrls s) cubeMap")
    case same: True
    from loadFromCubeMap_ok[OF assms] True have "cubeMap \<noteq> []" by simp
    with same assms show ?thesis by (simp add: loadFromCubeMap_same)
  next
    case False
    from assms True loadFromCubeMap_success[of env cubeMap s s' es] False show ?thesis by simp
  qed
next
  case False
  with assms loadFromCubeMap_failure[of env cubeMap s s' es] show ?thesis by simp
qed

lemma setSource_glMax:
  assumes "setSource env src s = Some (s', es)"
  shows "m_glMaxTexSize s' = m_glMaxTexSize s"
proof (cases "canConvert_QString src")
  case True
  obtain ok1 s1 es1 where r1: "loadFromUrl env (toString src) s = (ok1, s1, es1)"
    by (cases "loadFromUrl env (toString src) s")
  with assms True loadFromUrl_glMax[of env "toString src" s] show ?thesis
    by (auto simp: setSource_def split: if_splits)
next
  case False
  show ?thesis
  proof (cases "canConvert_QVariantMap src")
    case cm: True
    from setSource_cube_result[OF False cm assms] obtain ok s1 es1 where
      r: "loadFromCubeMap env (toMap src) s = Some (ok, s1, es1)" by blast
    with assms False cm loadFromCubeMap_glMax[OF r] show ?thesis
      by (auto simp: setSource_def split: if_splits)
  next
    case ncm: False
    with assms False show ?thesis by (simp add: setSource_other)
  qed
qed

lemma do_call_glMax:
  assumes "do_call c s = Some (s', es)"
  shows "m_glMaxTexSize s' = m_glMaxTexSize s"
proof (cases c)
  case (SetSource env src)
  with assms have "setSource env src s = Some (s', es)" by simp
  then show ?thesis by (rule setSource_glMax)
qed (use assms in \<open>auto simp: setAzimuth_def setElevation_def setFieldOfView_def
      setMaximumTextureSize_def updateSphere_def Let_def split: if_splits\<close>)

lemma do_calls_glMax:
  assumes "do_calls cs s = Some s'"
  shows "m_glMaxTexSize s' = m_glMaxTexSize s"
  using assms
proof (induction cs arbitrary: s)
  case Nil
  then show ?case by simp
next
  case (Cons c cs)
  from Cons.prems obtain s1 es where c: "do_call c s = Some (s1, es)"
    and r: "do_calls cs s1 = Some s'"
    by (auto split: option.splits)
  from Cons.IH[OF r] do_call_glMax[OF c] show ?case by simp
qed

lemma synchronize_glMax:
  "m_glMaxTexSize (fst (snd (snd (synchronize gl r itm)))) = rb_glMaxTexSize (init gl r)
   \<and> m_maximumTextureSize (fst (snd (snd (synchronize gl r itm)))) = m_maximumTextureSize itm"
  by (simp add: synchronize_def updateState_def Let_def split: prod.splits)

lemma synchronize_new_item:
  "fst (snd (snd (synchronize 4096 PhotoSphereRendererBase_new QmlPhotoSphere_new)))
     = QmlPhotoSphere_new\<lparr>m_glMaxTexSize := 4096\<rparr>"
  by (simp add: synchronize_def updateState_def init_def initBase_def
      PhotoSphereRendererBase_new_def QmlPhotoSphere_new_def Let_def)

subsection \<open>The setter\<close>

text \<open>
  C8, as the claim states it, fails: on an item whose device capability is 4096 (a new item
  after a first \<open>synchronize\<close>) and whose user limit is the initial 65536,
  \<open>setMaximumTextureSize 8192\<close> leaves the effective cap at 4096, and the item is not
  unchanged: its user limit is 8192 afterwards.
\<close>

theorem setMaximumTextureSize_same_cap_counterexample:
  "maximumTextureSize (fst (setMaximumTextureSize 8192 (QmlPhotoSphere_new\<lparr>m_glMaxTexSize := 4096\<rparr>)))
     = maximumTextureSize (QmlPhotoSphere_new\<lparr>m_glMaxTexSize := 4096\<rparr>)
   \<and> fst (setMaximumTextureSize 8192 (QmlPhotoSphere_new\<lparr>m_glMaxTexSize := 4096\<rparr>))
       \<noteq> QmlPhotoSphere_new\<lparr>m_glMaxTexSize := 4096\<rparr>
   \<and> m_maximumTextureSize (fst (setMaximumTextureSize 8192
         (QmlPhotoSphere_new\<lparr>m_glMaxTexSize := 4096\<rparr>))) = 8192
   \<and> m_maximumTextureSize (QmlPhotoSphere_new\<lparr>m_glMaxTexSize := 4096\<rparr>) = 65536"
  by (simp add: setMaximumTextureSize_def maximumTextureSize_def QmlPhotoSphere_new_def Let_def)

text \<open>
  C8, amended. If \<open>v\<close> yields the same effective cap (the minimum of \<open>v\<close> and the device
  capability) as before, the call schedules no repaint and emits no
  \<open>maximumTextureSizeChanged\<close>, and the only change of the item is that its stored user
  limit becomes \<open>v\<close>. Otherwise the limit becomes \<open>v\<close>, a repaint is scheduled and the
  notification is emitted once.
\<close>

theorem setMaximumTextureSize_effective_cap:
  "(min v (m_glMaxTexSize s) = maximumTextureSize s \<longrightarrow>
      setMaximumTextureSize v s = (s\<lparr>m_maximumTextureSize := v\<rparr>, []))
   \<and> (min v (m_glMaxTexSize s) \<noteq> maximumTextureSize s \<longrightarrow>
      setMaximumTextureSize v s =
        (s\<lparr>m_maximumTextureSize := v, m_nodeDirty := True\<rparr>,
         [Polish, Update,
          Emit maximumTextureSizeChanged (s\<lparr>m_maximumTextureSize := v, m_nodeDirty := True\<rparr>)]))"
  by (auto simp: setMaximumTextureSize_def maximumTextureSize_def updateSphere_def Let_def)

theorem setMaximumTextureSize_effective_cap_witness:
  "setMaximumTextureSize 8192 (QmlPhotoSphere_new\<lparr>m_glMaxTexSize := 4096\<rparr>)
     = (QmlPhotoSphere_new\<lparr>m_glMaxTexSize := 4096, m_maximumTextureSize := 8192\<rparr>, [])
   \<and> signals (snd (setMaximumTextureSize 2048 (QmlPhotoSphere_new\<lparr>m_glMaxTexSize := 4096\<rparr>)))
       = [maximumTextureSizeChanged]
   \<and> maximumTextureSize (fst (setMaximumTextureSize 2048
         (QmlPhotoSphere_new\<lparr>m_glMaxTexSize := 4096\<rparr>))) = 2048"
  using setMaximumTextureSize_effective_cap[of 8192 "QmlPhotoSphere_new\<lparr>m_glMaxTexSize := 4096\<rparr>"]
    setMaximumTextureSize_effective_cap[of 2048 "QmlPhotoSphere_new\<lparr>m_glMaxTexSize := 4096\<rparr>"]
  by (simp add: maximumTextureSize_def QmlPhotoSphere_new_def)

subsection \<open>The getter before and after the first synchronize\<close>

text \<open>
  C9, as the claim states it, fails: no \<open>synchronize\<close> has run, the cached capability is
  the sentinel \<open>-1\<close>, and after \<open>setMaximumTextureSize (-5)\<close> on a new item the getter
  returns \<open>-5\<close>, not \<open>-1\<close>.
\<close>

theorem maximumTextureSize_sentinel_counterexample:
  "m_glMaxTexSize (fst (setMaximumTextureSize (- 5) QmlPhotoSphere_new)) = - 1
   \<and> m_maximumTextureSize (fst (setMaximumTextureSize (- 5) QmlPhotoSphere_new)) = - 5
   \<and> maximumTextureSize (fst (setMaximumTextureSize (- 5) QmlPhotoSphere_new)) = - 5
   \<and> maximumTextureSize (fst (setMaximumTextureSize (- 5) QmlPhotoSphere_new)) \<noteq> - 1"
  by (simp add: setMaximumTextureSize_def maximumTextureSize_def updateSphere_def
      QmlPhotoSphere_new_def Let_def)

text \<open>
  C9, amended. After every sequence of setter calls on a new item, with no \<open>synchronize\<close>
  yet, the cached device capability is the sentinel \<open>-1\<close> and the getter returns the minimum
  of the user limit and \<open>-1\<close>: that is \<open>-1\<close> for every user limit of at least \<open>-1\<close>. The
  first \<open>synchronize\<close> of a new renderer writes the device capability \<open>gl\<close> back to the
  item, and the getter returns the minimum of the user limit and \<open>gl\<close> from then on.
\<close>

theorem maximumTextureSize_before_first_synchronize:
  "do_calls cs QmlPhotoSphere_new = Some s \<longrightarrow>
     m_glMaxTexSize s = - 1
     \<and> maximumTextureSize s = min (m_maximumTextureSize s) (- 1)
     \<and> (- 1 \<le> m_maximumTextureSize s \<longrightarrow> maximumTextureSize s = - 1)
     \<and> (let itm = fst (snd (snd (synchronize gl PhotoSphereRendererBase_new s)))
         in m_glMaxTexSize itm = gl
            \<and> maximumTextureSize itm = min (m_maximumTextureSize s) gl)"
proof
  assume r: "do_calls cs QmlPhotoSphere_new = Some s"
  have g: "m_glMaxTexSize s = - 1"
    using do_calls_glMax[OF r] by (simp add: QmlPhotoSphere_new_def)
  have i: "rb_glMaxTexSize (init gl PhotoSphereRendererBase_new) = gl"
    by (simp add: init_def initBase_def PhotoSphereRendererBase_new_def)
  show "m_glMaxTexSize s = - 1
     \<and> maximumTextureSize s = min (m_maximumTextureSize s) (- 1)
     \<and> (- 1 \<le> m_maximumTextureSize s \<longrightarrow> maximumTextureSize s = - 1)
     \<and> (let itm = fst (snd (snd (synchronize gl PhotoSphereRendererBase_new s)))
         in m_glMaxTexSize itm = gl
            \<and> maximumTextureSize itm = min (m_maximumTextureSize s) gl)"
    using g i synchronize_glMax[of gl PhotoSphereRendererBase_new s]
    by (simp add: maximumTextureSize_def Let_def)
qed

theorem maximumTextureSize_before_first_synchronize_witness:
  "do_calls [SetMaximumTextureSize 8192] QmlPhotoSphere_new
     = Some (QmlPhotoSphere_new\<lparr>m_maximumTextureSize := 8192\<rparr>)
   \<and> maximumTextureSize (QmlPhotoSphere_new\<lparr>m_maximumTextureSize := 8192\<rparr>) = - 1
   \<and> maximumTextureSize (fst (snd (snd (synchronize 4096 PhotoSphereRendererBase_new
        (QmlPhotoSphere_new\<lparr>m_maximumTextureSize := 8192\<rparr>))))) = 4096"
proof -
  have m: "do_calls [SetMaximumTextureSize 8192] QmlPhotoSphere_new
     = Some (QmlPhotoSphere_new\<lparr>m_maximumTextureSize := 8192\<rparr>)"
    by (simp add: setMaximumTextureSize_def maximumTextureSize_def QmlPhotoSphere_new_def Let_def)
  have n: "m_maximumTextureSize (QmlPhotoSphere_new\<lparr>m_maximumTextureSize := 8192\<rparr>) = 8192"
    by simp
  show ?thesis
    using maximumTextureSize_before_first_synchronize
      [of "[SetMaximumTextureSize 8192]" "QmlPhotoSphere_new\<lparr>m_maximumTextureSize := 8192\<rparr>" 4096]
      m n
    by (simp add: Let_def)
qed

section \<open>Equality of render states\<close>

text \<open>
  The floating-point \<^verbatim>\<open>==\<close> holds of two values that are the same and no NaN; the
  conversion to \<^verbatim>\<open>float\<close> gives a NaN for a NaN only. The render state a \<open>synchronize\<close>
  leaves in the renderer is the one \<open>updateState\<close> takes from the item.
\<close>

lemma fp_eq_iff: "fp_eq x y = (x = y \<and> x \<noteq> NaN)"
  by (cases x; cases y) simp_all

lemma fp_round_not_NaN: "fp_round p emin emax x \<noteq> NaN"
  by (simp add: fp_round_def Let_def)

lemma float_of_double_NaN: "(float_of_double x = NaN) = (x = NaN)"
  by (cases x) (simp_all add: to_float_def fp_round_not_NaN)

lemma synchronize_state:
  "rb_state (fst (snd (synchronize gl r itm))) =
     \<lparr>rs_azimuth = float_of_double (azimuth itm),
      rs_elevation = float_of_double (elevation itm),
      rs_fov = float_of_double (fieldOfView itm),
      rs_viewportWidth = int_of_double (item_width itm),
      rs_viewportHeight = int_of_double (item_height itm),
      rs_source = m_image itm,
      rs_sourceCube = m_cubeMap itm,
      rs_maxTexSize = min (rb_glMaxTexSize (init gl r)) (m_maximumTextureSize itm)\<rparr>"
  by (simp add: synchronize_def updateState_def Let_def split_def)

text \<open>With a NaN as field of view every \<open>synchronize\<close> finds the render state changed,
  and the rest of the pass runs.\<close>

lemma synchronize_NaN:
  assumes "m_fieldOfView itm = NaN"
  shows "fst (synchronize gl r itm) = True"
  using assms
  by (simp add: synchronize_def updateState_def Let_def split_def rs_equal_def fieldOfView_def)

text \<open>
  C6, as the claim states it, fails in two ways. The render state taken from the item after
  \<open>setFieldOfView NaN\<close> has a NaN as field of view and is not equal to itself, with all its
  fields and buffers the same. The render state of the example item and the one with the
  same six byte arrays in a map built apart have the same scalar fields, the same byte
  array of the single image and the same six byte arrays, each in the same block, and
  compare unequal: what is compared of the six faces is the block of the map that holds
  them.
\<close>

theorem rs_equal_shared_buffers_counterexample:
  "rs_fov state_nan = NaN
   \<and> rs_equal state_nan state_nan = False
   \<and> rs_azimuth state_cube_rebuilt = rs_azimuth state_cube
   \<and> rs_elevation state_cube_rebuilt = rs_elevation state_cube
   \<and> rs_fov state_cube_rebuilt = rs_fov state_cube
   \<and> rs_viewportWidth state_cube_rebuilt = rs_viewportWidth state_cube
   \<and> rs_viewportHeight state_cube_rebuilt = rs_viewportHeight state_cube
   \<and> rs_maxTexSize state_cube_rebuilt = rs_maxTexSize state_cube
   \<and> rs_source state_cube_rebuilt = rs_source state_cube
   \<and> qm_entries (rs_sourceCube state_cube_rebuilt) = qm_entries (rs_sourceCube state_cube)
   \<and> qm_entries (rs_sourceCube state_cube) PX = Some jpeg
   \<and> rs_equal state_cube state_cube_rebuilt = False"
proof -
  have n: "rs_fov state_nan = NaN"
    by (simp add: state_nan_def synchronize_state fieldOfView_def setFieldOfView_def fp_gt_def
        updateSphere_def)
  then have e: "rs_equal state_nan state_nan = False" by (simp add: rs_equal_def)
  have c: "rs_sourceCube state_cube = cube_faces env_ex six_faces"
    by (simp add: state_cube_def synchronize_state item_cube_def)
  have p: "qm_entries (rs_sourceCube state_cube) PX = Some jpeg"
    by (simp add: c cube_faces_def fetched_def fetchUrl_def env_ex_def six_faces_def
        vm_value_def)
  have d: "rs_equal state_cube state_cube_rebuilt = False"
    by (simp add: rs_equal_def state_cube_rebuilt_def qm_isSharedWith_def c cube_faces_def
        env_ex_def)
  from n e p d show ?thesis by (simp add: state_cube_rebuilt_def)
qed

text \<open>
  C6, amended. Two render states compare equal exactly when their angles, field of view,
  viewport sizes and texture-size caps are the same, none of the two angles and the field
  of view is a NaN, the byte array of the single image has the same block in both, and the
  map of the six faces has the same block in both. A render state compares equal to
  itself exactly when none of its angles and field of view is a NaN. A render state and
  the same one with its byte array replaced by an array in another block compare unequal,
  also when the new array holds the same bytes; so do a render state and the same one with
  its map of the faces replaced by a map in another block, also when the new map holds the
  same six byte arrays.
\<close>

theorem rs_equal_identity:
  "rs_equal a b =
     (rs_azimuth a = rs_azimuth b \<and> rs_elevation a = rs_elevation b \<and> rs_fov a = rs_fov b
      \<and> rs_azimuth a \<noteq> NaN \<and> rs_elevation a \<noteq> NaN \<and> rs_fov a \<noteq> NaN
      \<and> rs_viewportWidth a = rs_viewportWidth b \<and> rs_viewportHeight a = rs_viewportHeight b
      \<and> rs_maxTexSize a = rs_maxTexSize b
      \<and> ba_d (rs_source a) = ba_d (rs_source b)
      \<and> qm_d (rs_sourceCube a) = qm_d (rs_sourceCube b))
   \<and> rs_equal a a = (rs_azimuth a \<noteq> NaN \<and> rs_elevation a \<noteq> NaN \<and> rs_fov a \<noteq> NaN)
   \<and> (ba_d buf \<noteq> ba_d (rs_source a) \<and> ba_data buf = ba_data (rs_source a) \<longrightarrow>
        rs_equal a (a\<lparr>rs_source := buf\<rparr>) = False)
   \<and> (qm_d m \<noteq> qm_d (rs_sourceCube a) \<and> qm_entries m = qm_entries (rs_sourceCube a) \<longrightarrow>
        rs_equal a (a\<lparr>rs_sourceCube := m\<rparr>) = False)"
  by (auto simp: rs_equal_def fp_eq_iff ba_isSharedWith_def qm_isSharedWith_def)

theorem rs_equal_identity_witness:
  "rs_equal state_cube state_cube
   \<and> rs_equal state_nan state_nan = False
   \<and> ba_data (jpeg\<lparr>ba_d := 5\<rparr>) = ba_data jpeg
   \<and> rs_equal (PhotoSphereRenderState_new\<lparr>rs_source := jpeg\<rparr>)
               (PhotoSphereRenderState_new\<lparr>rs_source := jpeg\<lparr>ba_d := 5\<rparr>\<rparr>) = False
   \<and> rs_equal state_cube (state_cube\<lparr>rs_sourceCube := (rs_sourceCube state_cube)\<lparr>qm_d := 7\<rparr>\<rparr>)
       = False"
proof -
  have n: "rs_fov state_nan = NaN"
    by (simp add: state_nan_def synchronize_state fieldOfView_def setFieldOfView_def fp_gt_def
        updateSphere_def)
  have s: "rs_azimuth state_cube \<noteq> NaN" "rs_elevation state_cube \<noteq> NaN"
    "rs_fov state_cube \<noteq> NaN"
    by (simp_all add: state_cube_def synchronize_state to_float_def fp_round_not_NaN azimuth_def
        elevation_def fieldOfView_def item_cube_def QmlPhotoSphere_new_def)
  have c: "qm_d (rs_sourceCube state_cube) = 2"
    by (simp add: state_cube_def synchronize_state item_cube_def cube_faces_def env_ex_def)
  show ?thesis
    using rs_equal_identity[of state_cube state_cube jpeg
        "(rs_sourceCube state_cube)\<lparr>qm_d := 7\<rparr>"]
      rs_equal_identity[of state_nan state_nan jpeg CubeFaceMap_null]
      rs_equal_identity[of "PhotoSphereRenderState_new\<lparr>rs_source := jpeg\<rparr>"
        "PhotoSphereRenderState_new\<lparr>rs_source := jpeg\<rparr>" "jpeg\<lparr>ba_d := 5\<rparr>" CubeFaceMap_null]
      n s c
    by (simp add: PhotoSphereRenderState_new_def jpeg_def)
qed

section \<open>The size of the meshes\<close>

text \<open>
  The loop variables of the sphere are multiples of \<open>1/64\<close> and \<open>1/32\<close> between 0 and 1,
  which are doubles: each addition of the step is exact, the outer loop runs 64 times and
  the inner one 32 times.
\<close>

lemma to_double_dyadic:
  fixes n :: nat
  assumes "n \<le> 64"
  shows "to_double (of_nat n / 64) = Finite (of_nat n / 64)"
    and "to_double (of_nat n / 32) = Finite (of_nat n / 32)"
proof -
  have m: "\<bar>int n\<bar> < 2 ^ nat 53" using assms by simp
  have x6: "(of_nat n / 64 :: rat) = of_int (int n) * 2 powi (- 6)"
    by (simp add: power_int_minus inverse_eq_divide)
  have x5: "(of_nat n / 32 :: rat) = of_int (int n) * 2 powi (- 5)"
    by (simp add: power_int_minus inverse_eq_divide)
  have "(of_nat n :: rat) \<le> 64" using assms by (metis of_nat_le_iff of_nat_numeral)
  then have r6: "\<bar>of_nat n / 64 :: rat\<bar> < 2 powi (1023 + 1)"
    and r5: "\<bar>of_nat n / 32 :: rat\<bar> < 2 powi (1023 + 1)"
    by (simp_all add: power_int_def)
  show "to_double (of_nat n / 64) = Finite (of_nat n / 64)"
    unfolding to_double_def by (rule fp_round_exact[OF x6 m _ _ r6]) simp_all
  show "to_double (of_nat n / 32) = Finite (of_nat n / 32)"
    unfolding to_double_def by (rule fp_round_exact[OF x5 m _ _ r5]) simp_all
qed

lemma dj_value: "dj = Finite (1 / 32)"
  using to_double_dyadic(2)[of 1] by (simp add: dj_def step_def d_mul_def)

lemma add_di:
  fixes n :: nat
  assumes "n < 64"
  shows "d_add (Finite (of_nat n / 64)) di = Finite (of_nat (Suc n) / 64)"
proof -
  have e: "(of_nat n / 64 + 1 / 64 :: rat) = of_nat (Suc n) / 64" by (simp add: add_divide_distrib)
  have "d_add (Finite (of_nat n / 64)) di = to_double (of_nat n / 64 + 1 / 64)"
    by (simp add: d_add_def di_def step_def)
  also have "\<dots> = Finite (of_nat (Suc n) / 64)"
    unfolding e using assms by (intro to_double_dyadic(1)) simp
  finally show ?thesis .
qed

lemma add_dj:
  fixes n :: nat
  assumes "n < 32"
  shows "d_add (Finite (of_nat n / 32)) dj = Finite (of_nat (Suc n) / 32)"
proof -
  have e: "(of_nat n / 32 + 1 / 32 :: rat) = of_nat (Suc n) / 32" by (simp add: add_divide_distrib)
  have "d_add (Finite (of_nat n / 32)) dj = to_double (of_nat n / 32 + 1 / 32)"
    by (simp add: d_add_def dj_value)
  also have "\<dots> = Finite (of_nat (Suc n) / 32)"
    unfolding e using assms by (intro to_double_dyadic(2)) simp
  finally show ?thesis .
qed

lemma sphere_cell_length:
  "length (m_sphereVertices (sphere_cell lm i j sp)) = length (m_sphereVertices sp) + 6
   \<and> length (m_texCoords (sphere_cell lm i j sp)) = length (m_texCoords sp) + 6"
  by (simp add: sphere_cell_def Let_def)

lemma sphere_loop_j_from:
  fixes n :: nat
  assumes "n \<le> 32"
  shows "\<exists>sp'. sphere_loop_j lm i (Finite (of_nat n / 32)) sp = Some sp'
          \<and> length (m_sphereVertices sp') = length (m_sphereVertices sp) + 6 * (32 - n)
          \<and> length (m_texCoords sp') = length (m_texCoords sp) + 6 * (32 - n)"
  using assms
proof (induction "32 - n" arbitrary: n sp)
  case 0
  then have n: "n = 32" by simp
  show ?case by (subst sphere_loop_j.simps) (simp add: n)
next
  case (Suc k)
  then have lt: "n < 32" by simp
  then have cond: "fp_lt (Finite (of_nat n / 32)) (Finite 1)" by simp
  from Suc have k: "k = 32 - Suc n" and le: "Suc n \<le> 32" by simp_all
  from Suc.hyps(1)[OF k le, of "sphere_cell lm i (Finite (of_nat n / 32)) sp"]
  obtain sp' where
    r: "sphere_loop_j lm i (Finite (of_nat (Suc n) / 32))
          (sphere_cell lm i (Finite (of_nat n / 32)) sp) = Some sp'"
    and l1: "length (m_sphereVertices sp') =
       length (m_sphereVertices (sphere_cell lm i (Finite (of_nat n / 32)) sp)) + 6 * (32 - Suc n)"
    and l2: "length (m_texCoords sp') =
       length (m_texCoords (sphere_cell lm i (Finite (of_nat n / 32)) sp)) + 6 * (32 - Suc n)"
    by blast
  have "sphere_loop_j lm i (Finite (of_nat n / 32)) sp = Some sp'"
    by (subst sphere_loop_j.simps) (simp only: cond if_True add_dj[OF lt] r)
  moreover have "6 + 6 * (32 - Suc n) = 6 * (32 - n)" using lt by simp
  ultimately show ?case
    using l1 l2 sphere_cell_length[of lm i "Finite (of_nat n / 32)" sp] by simp
qed

lemma sphere_loop_j_row:
  "\<exists>sp'. sphere_loop_j lm i (Finite 0) sp = Some sp'
          \<and> length (m_sphereVertices sp') = length (m_sphereVertices sp) + 192
          \<and> length (m_texCoords sp') = length (m_texCoords sp) + 192"
  using sphere_loop_j_from[of 0 lm i sp] by simp

lemma sphere_loop_i_from:
  fixes n :: nat
  assumes "n \<le> 64"
  shows "\<exists>sp'. sphere_loop_i lm (Finite (of_nat n / 64)) sp = Some sp'
          \<and> length (m_sphereVertices sp') = length (m_sphereVertices sp) + 192 * (64 - n)
          \<and> length (m_texCoords sp') = length (m_texCoords sp) + 192 * (64 - n)"
  using assms
proof (induction "64 - n" arbitrary: n sp)
  case 0
  then have n: "n = 64" by simp
  show ?case by (subst sphere_loop_i.simps) (simp add: n)
next
  case (Suc k)
  then have lt: "n < 64" by simp
  then have cond: "fp_lt (Finite (of_nat n / 64)) (Finite 1)" by simp
  from Suc have k: "k = 64 - Suc n" and le: "Suc n \<le> 64" by simp_all
  obtain row where
    j: "sphere_loop_j lm (Finite (of_nat n / 64)) (Finite 0) sp = Some row"
    and j1: "length (m_sphereVertices row) = length (m_sphereVertices sp) + 192"
    and j2: "length (m_texCoords row) = length (m_texCoords sp) + 192"
    using sphere_loop_j_row[of lm "Finite (of_nat n / 64)" sp] by blast
  from Suc.hyps(1)[OF k le, of row]
  obtain sp' where
    r: "sphere_loop_i lm (Finite (of_nat (Suc n) / 64)) row = Some sp'"
    and l1: "length (m_sphereVertices sp') = length (m_sphereVertices row) + 192 * (64 - Suc n)"
    and l2: "length (m_texCoords sp') = length (m_texCoords row) + 192 * (64 - Suc n)"
    by blast
  have "sphere_loop_i lm (Finite (of_nat n / 64)) sp = Some sp'"
    by (subst sphere_loop_i.simps) (simp only: cond if_True j Option.bind.simps add_di[OF lt] r)
  moreover have "192 + 192 * (64 - Suc n) = 192 * (64 - n)" using lt by simp
  ultimately show ?case using l1 l2 j1 j2 by simp
qed

text \<open>The loop of the cube constructor fills the slots \<open>0\<close> to \<open>n - 1\<close> of the two
  arrays.\<close>

lemma update_at_boundary:
  assumes "length as = n" "n < length xs"
  shows "(as @ drop n xs)[n := v] = (as @ [v]) @ drop (Suc n) xs"
proof -
  have "drop n xs = xs ! n # drop (Suc n) xs"
    using assms(2) by (simp add: Cons_nth_drop_Suc)
  then show ?thesis using assms(1) by (simp add: list_update_append)
qed

lemma fold_cube_fill:
  assumes "n \<le> length (m_vertices c)" "n \<le> length (m_cubeTexCoords c)"
  shows "fold cube_fill [0..<n] c =
     c\<lparr>m_vertices :=
         map (\<lambda>i. m_cubeVertices c ! (m_indices c ! i)) [0..<n] @ drop n (m_vertices c),
       m_cubeTexCoords :=
         map (\<lambda>i. m_texCoordsFace c ! (i mod 4)) [0..<n] @ drop n (m_cubeTexCoords c)\<rparr>"
  using assms
proof (induction n)
  case 0
  then show ?case by simp
next
  case (Suc n)
  then have IH: "fold cube_fill [0..<n] c =
     c\<lparr>m_vertices :=
         map (\<lambda>i. m_cubeVertices c ! (m_indices c ! i)) [0..<n] @ drop n (m_vertices c),
       m_cubeTexCoords :=
         map (\<lambda>i. m_texCoordsFace c ! (i mod 4)) [0..<n] @ drop n (m_cubeTexCoords c)\<rparr>"
    by simp
  from Suc.prems have n1: "n < length (m_vertices c)" and n2: "n < length (m_cubeTexCoords c)"
    by simp_all
  have u1: "(map (\<lambda>i. m_cubeVertices c ! (m_indices c ! i)) [0..<n] @ drop n (m_vertices c))
        [n := m_cubeVertices c ! (m_indices c ! n)]
      = map (\<lambda>i. m_cubeVertices c ! (m_indices c ! i)) [0..<Suc n] @ drop (Suc n) (m_vertices c)"
    using update_at_boundary[OF _ n1, of "map (\<lambda>i. m_cubeVertices c ! (m_indices c ! i)) [0..<n]"]
    by simp
  have u2: "(map (\<lambda>i. m_texCoordsFace c ! (i mod 4)) [0..<n] @ drop n (m_cubeTexCoords c))
        [n := m_texCoordsFace c ! (n mod 4)]
      = map (\<lambda>i. m_texCoordsFace c ! (i mod 4)) [0..<Suc n] @ drop (Suc n) (m_cubeTexCoords c)"
    using update_at_boundary[OF _ n2, of "map (\<lambda>i. m_texCoordsFace c ! (i mod 4)) [0..<n]"]
    by simp
  have "fold cube_fill [0..<Suc n] c = cube_fill n (fold cube_fill [0..<n] c)" by simp
  also have "\<dots> = c\<lparr>m_vertices :=
         map (\<lambda>i. m_cubeVertices c ! (m_indices c ! i)) [0..<Suc n] @ drop (Suc n) (m_vertices c),
       m_cubeTexCoords :=
         map (\<lambda>i. m_texCoordsFace c ! (i mod 4)) [0..<Suc n] @ drop (Suc n) (m_cubeTexCoords c)\<rparr>"
    unfolding IH cube_fill_def using u1 u2 by simp
  finally show ?case .
qed


text \<open>
  C7. With the steps of the source, \<open>1/64\<close> horizontally and \<open>2/64\<close> vertically, the sphere
  generator returns, whatever \<open>cos\<close> and \<open>sin\<close> compute, and its mesh has 12288 vertex
  positions (6 for each of the 64 times 32 cells) and 12288 texture coordinates. The cube
  constructor leaves 24 vertices and 24 texture coordinates: vertex \<open>i\<close> is the corner
  \<open>m_indices[i]\<close>, four for each of the six faces, and its texture coordinate is entry
  \<open>i mod 4\<close> of the quad of a face.
\<close>

theorem mesh_vertex_counts:
  "di = Finite (1 / 64) \<and> dj = Finite (2 / 64)
   \<and> (\<exists>sp. generateSphere lm = Some sp
         \<and> length (m_sphereVertices sp) = 12288 \<and> length (m_texCoords sp) = 12288)
   \<and> length (m_vertices (Cube3D_new scale)) = 24
   \<and> length (m_cubeTexCoords (Cube3D_new scale)) = 24
   \<and> length (m_indices (Cube3D_new scale)) = 6 * 4
   \<and> m_vertices (Cube3D_new scale)
       = map (\<lambda>i. m_cubeVertices (Cube3D_new scale) ! (m_indices (Cube3D_new scale) ! i)) [0..<24]
   \<and> m_cubeTexCoords (Cube3D_new scale)
       = map (\<lambda>i. m_texCoordsFace (Cube3D_new scale) ! (i mod 4)) [0..<24]"
proof -
  have sphere: "\<exists>sp. generateSphere lm = Some sp
        \<and> length (m_sphereVertices sp) = 12288 \<and> length (m_texCoords sp) = 12288"
    using sphere_loop_i_from[of 0 lm "\<lparr>m_sphereVertices = [], m_texCoords = []\<rparr>"]
    by (simp add: generateSphere_def)
  define c0 where "c0 = Cube3D_init scale"
  have idx: "length (m_indices c0) = 24"
    and v: "m_vertices c0 = replicate 24 (Finite 0, Finite 0, Finite 0)"
    and t: "m_cubeTexCoords c0 = replicate 24 (Finite 0, Finite 0)"
    by (simp_all add: c0_def Cube3D_init_def)
  have l: "24 \<le> length (m_vertices c0)" "24 \<le> length (m_cubeTexCoords c0)"
    by (simp_all add: v t)
  have "Cube3D_new scale = fold cube_fill [0..<24] c0"
    unfolding Cube3D_new_def Let_def c0_def[symmetric] idx ..
  also have "\<dots> =
     c0\<lparr>m_vertices := map (\<lambda>i. m_cubeVertices c0 ! (m_indices c0 ! i)) [0..<24],
        m_cubeTexCoords := map (\<lambda>i. m_texCoordsFace c0 ! (i mod 4)) [0..<24]\<rparr>"
    unfolding fold_cube_fill[OF l] by (simp add: v t)
  finally have e: "Cube3D_new scale =
     c0\<lparr>m_vertices := map (\<lambda>i. m_cubeVertices c0 ! (m_indices c0 ! i)) [0..<24],
        m_cubeTexCoords := map (\<lambda>i. m_texCoordsFace c0 ! (i mod 4)) [0..<24]\<rparr>" .
  have cube: "length (m_vertices (Cube3D_new scale)) = 24
   \<and> length (m_cubeTexCoords (Cube3D_new scale)) = 24
   \<and> length (m_indices (Cube3D_new scale)) = 6 * 4
   \<and> m_vertices (Cube3D_new scale)
       = map (\<lambda>i. m_cubeVertices (Cube3D_new scale) ! (m_indices (Cube3D_new scale) ! i)) [0..<24]
   \<and> m_cubeTexCoords (Cube3D_new scale)
       = map (\<lambda>i. m_texCoordsFace (Cube3D_new scale) ! (i mod 4)) [0..<24]"
    unfolding e by (simp add: idx)
  have steps: "di = Finite (1 / 64) \<and> dj = Finite (2 / 64)"
    by (simp add: di_def step_def dj_value)
  from steps sphere cube show ?thesis by blast
qed

end
